theory Spec2Isabelle
  imports Complex_Main "HOL-Library.Char_ord" "HOL-Library.List_Lexorder" "HOL-Library.Multiset"
begin

section \<open>Real-time inference engine of the Planted recommender\<close>

text \<open>
  A shallow embedding of \<^verbatim>\<open>inference/realtime_inference.py\<close> (configuration, cache
  manager, database manager, inference engine, precomputation task) and of the
  prediction path of \<^verbatim>\<open>models/hybrid_recommender.py\<close> (feature encoder and ensemble
  score).

  Conventions of the embedding.
  \<^item> Python \<^verbatim>\<open>str\<close> is \<^typ>\<open>string\<close>; \<^verbatim>\<open>sorted\<close> on strings is the lexicographic
    order on characters. Python \<^verbatim>\<open>int\<close> is \<^typ>\<open>int\<close>.
  \<^item> Python and NumPy floats are \<^typ>\<open>real\<close>: rounding, NaN and infinities are not
    represented. \<^verbatim>\<open>json.loads(json.dumps(x))\<close> is taken to return \<^verbatim>\<open>x\<close>; the
    round trip \<^verbatim>\<open>float(str(score))\<close> of a cached score is a parameter (\<open>rt\<close>).
  \<^item> Every \<^verbatim>\<open>raise\<close> is a value \<open>Inl e\<close>; every \<^verbatim>\<open>try/except Exception\<close> is a
    case distinction on it.
  \<^item> Redis and PostgreSQL are not part of the repository. Redis is a key-value map
    with an expiry time per entry and a flag saying whether the server answers;
    PostgreSQL is the table of profiles, the roster of active users and a flag saying
    whether queries succeed. A clock \<open>now\<close> (seconds) is part of the state; only
    \<open>advance\<close> moves it.
  \<^item> \<^verbatim>\<open>asyncio.gather\<close> returns its results in the order of its arguments; the
    embedding runs the coroutines one after the other in that order.
  \<^item> Two counters that the source does not have, \<open>db_reads\<close> and \<open>model_calls\<close>,
    count the calls of \<^verbatim>\<open>DatabaseManager.get_user_profile\<close> and of
    \<^verbatim>\<open>HybridRecommender.predict_compatibility\<close>, as a mock would. The wall-clock
    bookkeeping of the engine (\<^verbatim>\<open>total_processing_time\<close>) is left out.
\<close>

subsection \<open>Python values and helpers\<close>

datatype pyexn = ValueError | TypeError | KeyError | ConnectionError | ResponseError

text \<open>A value of a profile dictionary: a float attribute or a string (the identifier).
  SQL NULL (Python \<^verbatim>\<open>None\<close>, which NumPy turns into NaN) is outside the embedding.\<close>

datatype pyval = PyFloat real | PyStr string

text \<open>A profile is a \<^verbatim>\<open>Dict[str, Any]\<close>, kept as an association list with unique keys.\<close>

type_synonym profile = "(string \<times> pyval) list"

text \<open>\<^verbatim>\<open>sep.join(xs)\<close>\<close>

fun join :: "string \<Rightarrow> string list \<Rightarrow> string" where
  "join sep [] = []"
| "join sep [x] = x"
| "join sep (x # y # ys) = x @ sep @ join sep (y # ys)"

text \<open>\<^verbatim>\<open>xs[:k]\<close> for any integer \<open>k\<close>: a negative \<open>k\<close> drops \<open>-k\<close> elements from the end.\<close>

definition py_slice_to :: "'a list \<Rightarrow> int \<Rightarrow> 'a list" where
  "py_slice_to xs k =
     (if 0 \<le> k then take (nat k) xs else take (length xs - nat (- k)) xs)"

text \<open>\<^verbatim>\<open>np.clip(x, lo, hi)\<close>\<close>

definition np_clip :: "real \<Rightarrow> real \<Rightarrow> real \<Rightarrow> real" where
  "np_clip x lo hi = min (max x lo) hi"

subsection \<open>InferenceConfig\<close>

text \<open>The dataclass has no \<^verbatim>\<open>__post_init__\<close>: any field values construct a configuration.
  The connection strings are left out.\<close>

record InferenceConfig =
  redis_port :: int
  redis_db :: int
  cache_ttl :: int
  batch_size :: int
  max_candidates :: int
  response_timeout_ms :: int
  precompute_batch_size :: int
  db_port :: int

definition default_config :: InferenceConfig where
  "default_config =
     \<lparr> redis_port = 6379, redis_db = 0, cache_ttl = 3600, batch_size = 32,
       max_candidates = 1000, response_timeout_ms = 100, precompute_batch_size = 100,
       db_port = 5432 \<rparr>"

text \<open>The three expiry times that \<^verbatim>\<open>CacheManager\<close> passes to \<^verbatim>\<open>setex\<close>:
  \<^verbatim>\<open>cache_ttl\<close> for profiles, \<^verbatim>\<open>cache_ttl * 2\<close> for compatibility scores and
  \<^verbatim>\<open>cache_ttl * 6\<close> for match lists.\<close>

definition profile_ttl :: "InferenceConfig \<Rightarrow> int" where
  "profile_ttl cfg = cache_ttl cfg"

definition compat_ttl :: "InferenceConfig \<Rightarrow> int" where
  "compat_ttl cfg = cache_ttl cfg * 2"

definition list_ttl :: "InferenceConfig \<Rightarrow> int" where
  "list_ttl cfg = cache_ttl cfg * 6"

subsection \<open>Cache keys\<close>

definition user_profile_key :: "string \<Rightarrow> string" where
  "user_profile_key user_id = ''user_profile:'' @ user_id"

definition matches_key :: "string \<Rightarrow> string" where
  "matches_key user_id = ''matches:'' @ user_id"

text \<open>\<^verbatim>\<open>f"compat:{':'.join(sorted([user1_id, user2_id]))}"\<close>\<close>

definition compat_key :: "string \<Rightarrow> string \<Rightarrow> string" where
  "compat_key user1_id user2_id = ''compat:'' @ join '':'' (sort [user1_id, user2_id])"

subsection \<open>Feature encoder (PlantedFeatureEncoder)\<close>

text \<open>\<^verbatim>\<open>user_data.get(key, default)\<close>\<close>

definition dict_get :: "profile \<Rightarrow> string \<Rightarrow> pyval \<Rightarrow> pyval" where
  "dict_get user_data key dflt = (case map_of user_data key of Some v \<Rightarrow> v | None \<Rightarrow> dflt)"

text \<open>\<^verbatim>\<open>np.array(features, dtype=np.float32)\<close>: a float entry is kept; a string entry
  is taken to be non-numeric text, on which NumPy raises \<^verbatim>\<open>ValueError\<close>.\<close>

fun np_float32 :: "pyval \<Rightarrow> pyexn + real" where
  "np_float32 (PyFloat r) = Inr r"
| "np_float32 (PyStr s) = Inl ValueError"

fun np_array :: "pyval list \<Rightarrow> pyexn + real list" where
  "np_array [] = Inr []"
| "np_array (v # vs) =
     (case np_float32 v of
        Inl e \<Rightarrow> Inl e
      | Inr r \<Rightarrow> (case np_array vs of Inl e \<Rightarrow> Inl e | Inr rs \<Rightarrow> Inr (r # rs)))"

definition encode_dietary_journey :: "profile \<Rightarrow> pyexn + real list" where
  "encode_dietary_journey user_data = np_array
     [dict_get user_data ''motivation_score'' (PyFloat 0.5),
      dict_get user_data ''strictness_level'' (PyFloat 0.5),
      dict_get user_data ''journey_stage'' (PyFloat 0.5),
      dict_get user_data ''social_comfort'' (PyFloat 0.5)]"

definition encode_values_alignment :: "profile \<Rightarrow> pyexn + real list" where
  "encode_values_alignment user_data = np_array
     [dict_get user_data ''animal_rights_score'' (PyFloat 0.5),
      dict_get user_data ''environmental_score'' (PyFloat 0.5),
      dict_get user_data ''health_motivation'' (PyFloat 0.5),
      dict_get user_data ''spiritual_connection'' (PyFloat 0.5),
      dict_get user_data ''activism_level'' (PyFloat 0.5)]"

definition encode_lifestyle_compatibility :: "profile \<Rightarrow> pyexn + real list" where
  "encode_lifestyle_compatibility user_data = np_array
     [dict_get user_data ''cooking_skill_level'' (PyFloat 0.5),
      dict_get user_data ''sustainability_practices'' (PyFloat 0.5),
      dict_get user_data ''community_involvement'' (PyFloat 0.5)]"

definition encode_behavioral_features :: "profile \<Rightarrow> pyexn + real list" where
  "encode_behavioral_features user_data = np_array
     [dict_get user_data ''swipe_selectivity'' (PyFloat 0.5),
      dict_get user_data ''message_quality_score'' (PyFloat 0.5),
      dict_get user_data ''response_time_pattern'' (PyFloat 0.5),
      dict_get user_data ''engagement_depth'' (PyFloat 0.5),
      dict_get user_data ''profile_completion'' (PyFloat 0.5),
      dict_get user_data ''activity_frequency'' (PyFloat 0.5)]"

text \<open>\<^verbatim>\<open>np.concatenate([dietary, values, lifestyle, behavioral])\<close>, the four encoders called
  in this order.\<close>

definition encode_user_features :: "profile \<Rightarrow> pyexn + real list" where
  "encode_user_features user_data =
     (case encode_dietary_journey user_data of Inl e \<Rightarrow> Inl e | Inr dietary \<Rightarrow>
      case encode_values_alignment user_data of Inl e \<Rightarrow> Inl e | Inr vals \<Rightarrow>
      case encode_lifestyle_compatibility user_data of Inl e \<Rightarrow> Inl e | Inr lifestyle \<Rightarrow>
      case encode_behavioral_features user_data of Inl e \<Rightarrow> Inl e | Inr behavioral \<Rightarrow>
      Inr (dietary @ vals @ lifestyle @ behavioral))"

subsection \<open>HybridRecommender: the prediction path\<close>

text \<open>
  The trained parts are parameters. \<open>compatibility_scorer = None\<close> is a
  \<^verbatim>\<open>CompatibilityScorer\<close> whose \<^verbatim>\<open>model\<close> is \<^verbatim>\<open>None\<close>; otherwise the function
  is scaler and regressor together, which may raise. \<open>deep_network = None\<close> is
  \<^verbatim>\<open>self.deep_network is None\<close>. The three weights are the entries
  \<^verbatim>\<open>'compatibility'\<close>, \<^verbatim>\<open>'deep_network'\<close>, \<^verbatim>\<open>'collaborative'\<close> of \<^verbatim>\<open>self.weights\<close>.
\<close>

record HybridRecommender =
  compatibility_scorer :: "(real list \<Rightarrow> pyexn + real) option"
  deep_network :: "(real list \<Rightarrow> real list \<Rightarrow> pyexn + real) option"
  weight_compatibility :: real
  weight_deep_network :: real
  weight_collaborative :: real

text \<open>\<^verbatim>\<open>CompatibilityScorer.predict\<close>\<close>

definition CompatibilityScorer_predict :: "HybridRecommender \<Rightarrow> real list \<Rightarrow> pyexn + real" where
  "CompatibilityScorer_predict m X =
     (case compatibility_scorer m of None \<Rightarrow> Inl ValueError | Some f \<Rightarrow> f X)"

definition np_dot :: "real list \<Rightarrow> real list \<Rightarrow> real" where
  "np_dot xs ys = sum_list (map2 (*) xs ys)"

definition np_linalg_norm :: "real list \<Rightarrow> real" where
  "np_linalg_norm xs = sqrt (sum_list (map (\<lambda>x. x * x) xs))"

text \<open>\<^verbatim>\<open>HybridRecommender._compute_collaborative_score\<close>\<close>

definition compute_collaborative_score :: "profile \<Rightarrow> profile \<Rightarrow> pyexn + real" where
  "compute_collaborative_score user1_data user2_data =
     (case encode_user_features user1_data of Inl e \<Rightarrow> Inl e | Inr user1_features \<Rightarrow>
      case encode_user_features user2_data of Inl e \<Rightarrow> Inl e | Inr user2_features \<Rightarrow>
      let dot_product = np_dot user1_features user2_features;
          norm1 = np_linalg_norm user1_features;
          norm2 = np_linalg_norm user2_features
      in if norm1 = 0 \<or> norm2 = 0 then Inr 0.5
         else Inr ((dot_product / (norm1 * norm2) + 1) / 2))"

text \<open>\<^verbatim>\<open>HybridRecommender.predict_compatibility\<close>\<close>

definition HybridRecommender_predict_compatibility ::
  "HybridRecommender \<Rightarrow> profile \<Rightarrow> profile \<Rightarrow> pyexn + real" where
  "HybridRecommender_predict_compatibility m user1_data user2_data =
     (case encode_user_features user1_data of Inl e \<Rightarrow> Inl e | Inr user1_features \<Rightarrow>
      case encode_user_features user2_data of Inl e \<Rightarrow> Inl e | Inr user2_features \<Rightarrow>
      case CompatibilityScorer_predict m (user1_features @ user2_features) of
        Inl e \<Rightarrow> Inl e | Inr compat_score \<Rightarrow>
      case (case deep_network m of None \<Rightarrow> Inr 0.5
            | Some net \<Rightarrow> net user1_features user2_features) of
        Inl e \<Rightarrow> Inl e | Inr deep_score \<Rightarrow>
      case compute_collaborative_score user1_data user2_data of
        Inl e \<Rightarrow> Inl e | Inr collab_score \<Rightarrow>
      Inr (np_clip (weight_compatibility m * compat_score +
                    weight_deep_network m * deep_score +
                    weight_collaborative m * collab_score) 0 1))"

subsection \<open>The state: Redis, PostgreSQL, clock, counters\<close>

text \<open>An entry of a match list: \<^verbatim>\<open>{'user_id', 'compatibility_score', 'timestamp'}\<close>.
  The timestamp is the clock's value instead of an ISO string.\<close>

record recommendation =
  rec_user_id :: string
  compatibility_score :: real
  timestamp :: int

text \<open>What a Redis value decodes to: \<^verbatim>\<open>json.loads\<close> of a profile or of a match list.
  A score entry is the text \<^verbatim>\<open>str(score)\<close>, and its reader returns \<^verbatim>\<open>float\<close> of that
  text; \<open>RScore\<close> holds the number that is read back.\<close>

datatype redis_val = RProfile profile | RScore real | RMatches "recommendation list"

text \<open>\<^verbatim>\<open>float(str(score))\<close>: the number that \<^verbatim>\<open>float\<close> reads from the text that
  \<^verbatim>\<open>str\<close> writes for a score. The text depends on the numeric type of the score, which
  the embedding does not represent, so the round trip is a parameter of the cache
  writer. For a Python float it returns the score itself; for a NumPy
  \<^verbatim>\<open>float32\<close> score (what \<^verbatim>\<open>np.clip\<close> returns on \<^verbatim>\<open>float32\<close> arithmetic) the text is
  the shortest decimal that identifies the \<^verbatim>\<open>float32\<close>, and the double read from it is
  in general another number.\<close>

type_synonym text_roundtrip = "real \<Rightarrow> real"

definition python_float_roundtrip :: text_roundtrip where
  "python_float_roundtrip score = score"

record world =
  redis_up :: bool
  redis_data :: "string \<Rightarrow> (redis_val \<times> int) option"
  now :: int
  db_up :: bool
  db_profiles :: "string \<Rightarrow> profile option"
  db_active :: "string list"
  cache_hits :: nat
  request_count :: nat
  db_reads :: nat
  model_calls :: nat

definition advance :: "int \<Rightarrow> world \<Rightarrow> world" where
  "advance d w = w\<lparr>now := now w + d\<rparr>"

text \<open>\<^verbatim>\<open>redis_client.get(key)\<close>: raises when the server does not answer; an entry is
  gone once its expiry time is reached.\<close>

definition redis_get :: "world \<Rightarrow> string \<Rightarrow> pyexn + redis_val option" where
  "redis_get w key =
     (if \<not> redis_up w then Inl ConnectionError
      else Inr (case redis_data w key of
                  None \<Rightarrow> None
                | Some (v, expires) \<Rightarrow> if now w < expires then Some v else None))"

text \<open>\<^verbatim>\<open>redis_client.setex(key, ttl, value)\<close>: raises when the server does not answer,
  and Redis refuses an expiry time that is not positive.\<close>

definition redis_setex :: "world \<Rightarrow> string \<Rightarrow> int \<Rightarrow> redis_val \<Rightarrow> pyexn + world" where
  "redis_setex w key ttl v =
     (if \<not> redis_up w then Inl ConnectionError
      else if ttl \<le> 0 then Inl ResponseError
      else Inr (w\<lparr>redis_data := (redis_data w)(key \<mapsto> (v, now w + ttl))\<rparr>))"

subsection \<open>CacheManager\<close>

text \<open>Each method catches every exception. A value of the wrong kind under a key
  cannot arise (the three key prefixes differ in their first character) and is read
  as a miss.\<close>

definition CacheManager_get_user_profile :: "world \<Rightarrow> string \<Rightarrow> profile option" where
  "CacheManager_get_user_profile w user_id =
     (case redis_get w (user_profile_key user_id) of
        Inr (Some (RProfile p)) \<Rightarrow> Some p
      | _ \<Rightarrow> None)"

definition CacheManager_set_user_profile ::
  "InferenceConfig \<Rightarrow> world \<Rightarrow> string \<Rightarrow> profile \<Rightarrow> world" where
  "CacheManager_set_user_profile cfg w user_id p =
     (case redis_setex w (user_profile_key user_id) (profile_ttl cfg) (RProfile p) of
        Inl e \<Rightarrow> w
      | Inr w' \<Rightarrow> w')"

definition CacheManager_get_precomputed_matches ::
  "world \<Rightarrow> string \<Rightarrow> recommendation list option" where
  "CacheManager_get_precomputed_matches w user_id =
     (case redis_get w (matches_key user_id) of
        Inr (Some (RMatches ms)) \<Rightarrow> Some ms
      | _ \<Rightarrow> None)"

definition CacheManager_set_precomputed_matches ::
  "InferenceConfig \<Rightarrow> world \<Rightarrow> string \<Rightarrow> recommendation list \<Rightarrow> world" where
  "CacheManager_set_precomputed_matches cfg w user_id ms =
     (case redis_setex w (matches_key user_id) (list_ttl cfg) (RMatches ms) of
        Inl e \<Rightarrow> w
      | Inr w' \<Rightarrow> w')"

text \<open>\<^verbatim>\<open>float(score) if score else None\<close>: the text of a score is never empty and always
  parses; the number \<^verbatim>\<open>float\<close> gives for it is the one \<open>RScore\<close> holds.\<close>

definition CacheManager_get_compatibility_score :: "world \<Rightarrow> string \<Rightarrow> string \<Rightarrow> real option" where
  "CacheManager_get_compatibility_score w user1_id user2_id =
     (case redis_get w (compat_key user1_id user2_id) of
        Inr (Some (RScore score)) \<Rightarrow> Some score
      | _ \<Rightarrow> None)"

text \<open>\<^verbatim>\<open>setex(key, cache_ttl * 2, str(score))\<close>: the entry is the text of the score, kept
  here as the number \<open>rt score\<close> that its reader gets from that text.\<close>

definition CacheManager_set_compatibility_score ::
  "text_roundtrip \<Rightarrow> InferenceConfig \<Rightarrow> world \<Rightarrow> string \<Rightarrow> string \<Rightarrow> real \<Rightarrow> world" where
  "CacheManager_set_compatibility_score rt cfg w user1_id user2_id score =
     (case redis_setex w (compat_key user1_id user2_id) (compat_ttl cfg) (RScore (rt score)) of
        Inl e \<Rightarrow> w
      | Inr w' \<Rightarrow> w')"

subsection \<open>DatabaseManager\<close>

text \<open>\<open>db_up\<close> is false when there is no connection pool or the query raises; both
  give \<^verbatim>\<open>None\<close>, respectively the empty list. An empty row is falsy and gives
  \<^verbatim>\<open>None\<close>.\<close>

definition DatabaseManager_get_user_profile :: "world \<Rightarrow> string \<Rightarrow> profile option \<times> world" where
  "DatabaseManager_get_user_profile w user_id =
     (let w' = w\<lparr>db_reads := Suc (db_reads w)\<rparr>
      in if \<not> db_up w then (None, w')
         else (case db_profiles w user_id of
                 None \<Rightarrow> (None, w')
               | Some result \<Rightarrow> if result \<noteq> [] then (Some result, w') else (None, w')))"

text \<open>\<^verbatim>\<open>LIMIT %s\<close>: PostgreSQL refuses a negative limit, and the method returns
  \<^verbatim>\<open>[]\<close> on any error.\<close>

definition DatabaseManager_get_active_users :: "world \<Rightarrow> int \<Rightarrow> string list" where
  "DatabaseManager_get_active_users w limit =
     (if \<not> db_up w \<or> limit < 0 then [] else take (nat limit) (db_active w))"

subsection \<open>ModelInferenceEngine\<close>

text \<open>Python truth of an optional dictionary or list: \<^verbatim>\<open>None\<close> and the empty one
  are falsy.\<close>

fun truthy :: "'a list option \<Rightarrow> bool" where
  "truthy None = False"
| "truthy (Some []) = False"
| "truthy (Some (x # xs)) = True"

definition get_user_profile ::
  "InferenceConfig \<Rightarrow> world \<Rightarrow> string \<Rightarrow> profile option \<times> world" where
  "get_user_profile cfg w user_id =
     (let profile = CacheManager_get_user_profile w user_id
      in if truthy profile then (profile, w\<lparr>cache_hits := Suc (cache_hits w)\<rparr>)
         else (case DatabaseManager_get_user_profile w user_id of
                 (Some p, w1) \<Rightarrow>
                   if truthy (Some p) then (Some p, CacheManager_set_user_profile cfg w1 user_id p)
                   else (Some p, w1)
               | (None, w1) \<Rightarrow> (None, w1)))"

definition predict_compatibility ::
  "text_roundtrip \<Rightarrow> InferenceConfig \<Rightarrow> HybridRecommender \<Rightarrow> world \<Rightarrow> string \<Rightarrow> string \<Rightarrow> real \<times> world" where
  "predict_compatibility rt cfg m w user1_id user2_id =
     (case CacheManager_get_compatibility_score w user1_id user2_id of
        Some cached_score \<Rightarrow> (cached_score, w\<lparr>cache_hits := Suc (cache_hits w)\<rparr>)
      | None \<Rightarrow>
         (case get_user_profile cfg w user1_id of (user1_profile, w1) \<Rightarrow>
          case get_user_profile cfg w1 user2_id of (user2_profile, w2) \<Rightarrow>
          (case (user1_profile, user2_profile) of
             (Some p1, Some p2) \<Rightarrow>
               if \<not> truthy user1_profile \<or> \<not> truthy user2_profile then (0.5, w2)
               else
                 let user1_data = filter (\<lambda>(k, v). k \<noteq> ''user_id'') p1;
                     user2_data = filter (\<lambda>(k, v). k \<noteq> ''user_id'') p2;
                     w3 = w2\<lparr>model_calls := Suc (model_calls w2)\<rparr>
                 in (case HybridRecommender_predict_compatibility m user1_data user2_data of
                       Inr score \<Rightarrow>
                         (score, CacheManager_set_compatibility_score rt cfg w3 user1_id user2_id score)
                     | Inl e \<Rightarrow> (0.5, w3))
           | _ \<Rightarrow> (0.5, w2))))"

text \<open>\<^verbatim>\<open>await asyncio.gather(*compatibility_tasks)\<close>: one score per candidate, in the
  order of the candidates.\<close>

fun gather_predict ::
  "text_roundtrip \<Rightarrow> InferenceConfig \<Rightarrow> HybridRecommender \<Rightarrow> world \<Rightarrow> string \<Rightarrow> string list \<Rightarrow> real list \<times> world" where
  "gather_predict rt cfg m w user_id [] = ([], w)"
| "gather_predict rt cfg m w user_id (candidate_id # rest) =
     (case predict_compatibility rt cfg m w user_id candidate_id of (score, w1) \<Rightarrow>
      case gather_predict rt cfg m w1 user_id rest of (scores, w2) \<Rightarrow>
      (score # scores, w2))"

text \<open>\<^verbatim>\<open>recommendations.sort(key=lambda x: x['compatibility_score'], reverse=True)\<close>:
  CPython reverses the list, sorts it stably by ascending key and reverses it again.\<close>

definition sort_by_score_desc :: "recommendation list \<Rightarrow> recommendation list" where
  "sort_by_score_desc rs = rev (sort_key compatibility_score (rev rs))"

definition make_recommendations :: "int \<Rightarrow> string list \<Rightarrow> real list \<Rightarrow> recommendation list" where
  "make_recommendations t candidate_ids compatibility_scores =
     map (\<lambda>(candidate_id, score).
            \<lparr>rec_user_id = candidate_id, compatibility_score = score, timestamp = t\<rparr>)
         (zip candidate_ids compatibility_scores)"

text \<open>\<open>candidate_ids\<close> is \<^verbatim>\<open>Optional[List[str]]\<close>. The name is bound again to the
  generated roster before the scores are computed, so the test before the cache write
  reads the list that was scored (\<open>cands\<close> below).\<close>

definition get_recommendations ::
  "text_roundtrip \<Rightarrow> InferenceConfig \<Rightarrow> HybridRecommender \<Rightarrow> world \<Rightarrow> string \<Rightarrow> string list option \<Rightarrow> int
     \<Rightarrow> recommendation list \<times> world" where
  "get_recommendations rt cfg m w user_id candidate_ids top_k =
     (let cached_matches = CacheManager_get_precomputed_matches w user_id
      in if truthy cached_matches \<and> \<not> truthy candidate_ids
         then (py_slice_to (case cached_matches of Some ms \<Rightarrow> ms | None \<Rightarrow> []) top_k,
               w\<lparr>cache_hits := Suc (cache_hits w)\<rparr>)
         else
           (case get_user_profile cfg w user_id of (user_profile, w1) \<Rightarrow>
            if \<not> truthy user_profile then ([], w1)
            else
              let cands =
                    (if \<not> truthy candidate_ids
                     then filter (\<lambda>cid. cid \<noteq> user_id)
                            (DatabaseManager_get_active_users w1 (max_candidates cfg))
                     else (case candidate_ids of Some cs \<Rightarrow> cs | None \<Rightarrow> []))
              in (case gather_predict rt cfg m w1 user_id cands of (compatibility_scores, w2) \<Rightarrow>
                  let recommendations =
                        sort_by_score_desc (make_recommendations (now w2) cands compatibility_scores);
                      top_recommendations = py_slice_to recommendations top_k;
                      w3 = (if cands = []
                            then CacheManager_set_precomputed_matches cfg w2 user_id
                                   (py_slice_to recommendations 50)
                            else w2)
                  in (top_recommendations, w3\<lparr>request_count := Suc (request_count w3)\<rparr>))))"

text \<open>\<^verbatim>\<open>_precompute_user_matches\<close>: the result is only logged.\<close>

definition precompute_user_matches ::
  "text_roundtrip \<Rightarrow> InferenceConfig \<Rightarrow> HybridRecommender \<Rightarrow> world \<Rightarrow> string \<Rightarrow> world" where
  "precompute_user_matches rt cfg m w user_id = snd (get_recommendations rt cfg m w user_id None 50)"

subsection \<open>Names used in the statements\<close>

text \<open>The eighteen numeric attributes, in the order in which the encoder reads them.\<close>

definition schema_keys :: "string list" where
  "schema_keys =
     [''motivation_score'',
      ''strictness_level'',
      ''journey_stage'',
      ''social_comfort'',
      ''animal_rights_score'',
      ''environmental_score'',
      ''health_motivation'',
      ''spiritual_connection'',
      ''activism_level'',
      ''cooking_skill_level'',
      ''sustainability_practices'',
      ''community_involvement'',
      ''swipe_selectivity'',
      ''message_quality_score'',
      ''response_time_pattern'',
      ''engagement_depth'',
      ''profile_completion'',
      ''activity_frequency'']"

text \<open>The order the specification asks of a ranked list: score descending, and
  candidate identifier ascending among equal scores.\<close>

definition spec_ranked :: "recommendation list \<Rightarrow> bool" where
  "spec_ranked rs =
     sorted_wrt (\<lambda>r s. compatibility_score s < compatibility_score r \<or>
                        (compatibility_score s = compatibility_score r \<and> rec_user_id r \<le> rec_user_id s)) rs"

text \<open>The order the code produces: score descending.\<close>

definition score_descending :: "recommendation list \<Rightarrow> bool" where
  "score_descending rs = sorted_wrt (\<lambda>r s. compatibility_score s \<le> compatibility_score r) rs"

subsection \<open>Example data\<close>

text \<open>A row of \<^verbatim>\<open>user_profiles\<close> as the query of \<^verbatim>\<open>DatabaseManager.get_user_profile\<close>
  returns it, with every numeric attribute equal to \<open>x\<close>.\<close>

definition uniform_profile :: "string \<Rightarrow> real \<Rightarrow> profile" where
  "uniform_profile uid x =
     [(''user_id'', PyStr uid),
      (''motivation_score'', PyFloat x),
      (''strictness_level'', PyFloat x),
      (''journey_stage'', PyFloat x),
      (''social_comfort'', PyFloat x),
      (''animal_rights_score'', PyFloat x),
      (''environmental_score'', PyFloat x),
      (''health_motivation'', PyFloat x),
      (''spiritual_connection'', PyFloat x),
      (''activism_level'', PyFloat x),
      (''cooking_skill_level'', PyFloat x),
      (''sustainability_practices'', PyFloat x),
      (''community_involvement'', PyFloat x),
      (''swipe_selectivity'', PyFloat x),
      (''message_quality_score'', PyFloat x),
      (''response_time_pattern'', PyFloat x),
      (''engagement_depth'', PyFloat x),
      (''profile_completion'', PyFloat x),
      (''activity_frequency'', PyFloat x)]"

text \<open>\<^verbatim>\<open>HybridRecommender()\<close> as \<^verbatim>\<open>__init__\<close> leaves it (the engine's model when no
  model file is found): the scorer is not trained, there is no deep network.\<close>

definition untrained_model :: HybridRecommender where
  "untrained_model =
     \<lparr> compatibility_scorer = None, deep_network = None,
       weight_compatibility = 0.4, weight_deep_network = 0.4, weight_collaborative = 0.2 \<rparr>"

text \<open>A model whose trained scorer returns the first entry of its input, that is the
  first attribute of the first user.\<close>

definition first_feature_model :: HybridRecommender where
  "first_feature_model =
     \<lparr> compatibility_scorer = Some (\<lambda>X. case X of [] \<Rightarrow> Inl ValueError | x # _ \<Rightarrow> Inr x),
       deep_network = None,
       weight_compatibility = 0.4, weight_deep_network = 0.4, weight_collaborative = 0.2 \<rparr>"

text \<open>Four users in the store, all of them active; an empty cache; time 0.\<close>

definition demo_world :: world where
  "demo_world =
     \<lparr> redis_up = True, redis_data = (\<lambda>k. None), now = 0, db_up = True,
       db_profiles = map_of
         [(''a'', uniform_profile ''a'' 0), (''b'', uniform_profile ''b'' 0.5),
          (''c'', uniform_profile ''c'' 1), (''u'', uniform_profile ''u'' 0.5)],
       db_active = [''u'', ''a'', ''b'', ''c''],
       cache_hits = 0, request_count = 0, db_reads = 0, model_calls = 0 \<rparr>"

text \<open>The same store with three compatibility scores of user \<open>u\<close> in the cache.\<close>

definition scored_world :: world where
  "scored_world =
     demo_world\<lparr>redis_data := map_of
       [(compat_key ''u'' ''a'', (RScore 0.9, 7200)),
        (compat_key ''u'' ''b'', (RScore 0.9, 7200)),
        (compat_key ''u'' ''c'', (RScore 0.7, 7200))]\<rparr>"

text \<open>A store with one user whose numeric attributes are all 1.5.\<close>

definition outlier_world :: world where
  "outlier_world = demo_world\<lparr>db_profiles := map_of [(''v'', uniform_profile ''v'' 1.5)]\<rparr>"

section \<open>Properties\<close>

subsection \<open>Cache keys\<close>

lemma compat_key_eq:
  "compat_key a b = ''compat:'' @ (if a \<le> b then a @ '':'' @ b else b @ '':'' @ a)"
  by (simp add: compat_key_def)

lemma compat_key_commute: "compat_key a b = compat_key b a"
proof (cases "a \<le> b")
  case True
  show ?thesis
  proof (cases "b \<le> a")
    case True
    with \<open>a \<le> b\<close> have "a = b" by simp
    then show ?thesis by simp
  next
    case False
    with \<open>a \<le> b\<close> show ?thesis by (simp only: compat_key_eq if_True if_False)
  qed
next
  case False
  then have "b \<le> a" by simp
  with False show ?thesis by (simp only: compat_key_eq if_True if_False)
qed

lemma joined_inject:
  assumes "CHR '':'' \<notin> set a" "CHR '':'' \<notin> set b" "a @ '':'' @ b = c @ '':'' @ d"
  shows "a = c \<and> b = d"
proof -
  have "a @ CHR '':'' # b = c @ CHR '':'' # d"
    using assms(3) by simp
  then show ?thesis
    using append_Cons_eq_iff [of "CHR '':''" a b c d] assms(1) assms(2) by blast
qed

lemma compat_key_sorted:
  "\<exists>x y. {a, b} = {x, y} \<and> compat_key a b = ''compat:'' @ x @ '':'' @ y"
proof (cases "a \<le> b")
  case True
  then have "compat_key a b = ''compat:'' @ a @ '':'' @ b"
    by (simp only: compat_key_eq if_True)
  then show ?thesis by blast
next
  case False
  then have "compat_key a b = ''compat:'' @ b @ '':'' @ a"
    by (simp only: compat_key_eq if_False)
  moreover have "{a, b} = {b, a}" by (rule insert_commute)
  ultimately show ?thesis by blast
qed

lemma compat_key_inject:
  assumes "CHR '':'' \<notin> set a" "CHR '':'' \<notin> set b"
    and "compat_key a b = compat_key c d"
  shows "{a, b} = {c, d}"
proof -
  obtain x y where xy: "{a, b} = {x, y}" "compat_key a b = ''compat:'' @ x @ '':'' @ y"
    using compat_key_sorted by blast
  obtain u v where uv: "{c, d} = {u, v}" "compat_key c d = ''compat:'' @ u @ '':'' @ v"
    using compat_key_sorted by blast
  have "x \<in> {a, b}" "y \<in> {a, b}" using xy(1) by simp_all
  then have nx: "CHR '':'' \<notin> set x" and ny: "CHR '':'' \<notin> set y"
    using assms(1,2) by blast+
  have "x @ '':'' @ y = u @ '':'' @ v"
    using assms(3) xy(2) uv(2) by simp
  with nx ny have "x = u \<and> y = v" by (rule joined_inject)
  with xy(1) uv(1) show ?thesis by simp
qed

lemma compat_key_collision:
  "{''a'', ''b:c''} \<noteq> {''a:b'', ''c''} \<and> compat_key ''a'' ''b:c'' = compat_key ''a:b'' ''c''"
proof
  show "{''a'', ''b:c''} \<noteq> {''a:b'', ''c''}"
    by (simp add: doubleton_eq_iff)
  have "''a'' \<le> ''b:c''" "''a:b'' \<le> ''c''" by simp_all
  then show "compat_key ''a'' ''b:c'' = compat_key ''a:b'' ''c''"
    by (simp add: compat_key_eq)
qed

text \<open>
  C10. The compatibility key is symmetric in its two arguments for all identifiers; on
  identifiers without the delimiter \<open>:\<close> it determines the unordered pair; and there
  are two different unordered pairs of identifiers containing \<open>:\<close> with one key
  (\<open>a\<close>, \<open>b:c\<close> and \<open>a:b\<close>, \<open>c\<close>), which therefore share one cache entry.
\<close>

theorem compat_key_symmetric_injective_collision:
  "(\<forall>a b. compat_key a b = compat_key b a) \<and>
   (\<forall>a b c d. CHR '':'' \<notin> set a \<and> CHR '':'' \<notin> set b \<and> CHR '':'' \<notin> set c \<and> CHR '':'' \<notin> set d \<and>
        compat_key a b = compat_key c d \<longrightarrow> {a, b} = {c, d}) \<and>
   (\<exists>a b c d. {a, b} \<noteq> {c, d} \<and> compat_key a b = compat_key c d \<and>
        CHR '':'' \<in> set b \<and> CHR '':'' \<in> set c)"
proof (intro conjI allI impI)
  fix a b show "compat_key a b = compat_key b a"
    by (rule compat_key_commute)
next
  fix a b c d :: string
  assume h: "CHR '':'' \<notin> set a \<and> CHR '':'' \<notin> set b \<and> CHR '':'' \<notin> set c \<and> CHR '':'' \<notin> set d \<and>
        compat_key a b = compat_key c d"
  from h have 1: "CHR '':'' \<notin> set a" by (rule conjunct1)
  from h have 2: "CHR '':'' \<notin> set b" by (elim conjE)
  from h have 3: "compat_key a b = compat_key c d" by (elim conjE)
  from 1 2 3 show "{a, b} = {c, d}"
    by (rule compat_key_inject)
next
  have c1: "CHR '':'' \<in> set ''b:c''" and c2: "CHR '':'' \<in> set ''a:b''" by simp_all
  from compat_key_collision have n: "{''a'', ''b:c''} \<noteq> {''a:b'', ''c''}"
    by (rule conjunct1)
  from compat_key_collision have e: "compat_key ''a'' ''b:c'' = compat_key ''a:b'' ''c''"
    by (rule conjunct2)
  from n e c1 c2
  have "{''a'', ''b:c''} \<noteq> {''a:b'', ''c''} \<and> compat_key ''a'' ''b:c'' = compat_key ''a:b'' ''c'' \<and>
        CHR '':'' \<in> set ''b:c'' \<and> CHR '':'' \<in> set ''a:b''"
    by (intro conjI)
  then show "\<exists>a b c d :: string. {a, b} \<noteq> {c, d} \<and> compat_key a b = compat_key c d \<and>
        CHR '':'' \<in> set b \<and> CHR '':'' \<in> set c"
    by (intro exI)
qed

theorem compat_key_symmetric_injective_collision_witness:
  "(CHR '':'' \<notin> set ''u1'' \<and> CHR '':'' \<notin> set ''u2'' \<and>
    compat_key ''u1'' ''u2'' = compat_key ''u2'' ''u1'') \<and>
   {''u1'', ''u2''} = {''u2'', ''u1''}"
proof -
  note t = compat_key_symmetric_injective_collision
  from t have sym: "\<forall>a b. compat_key a b = compat_key b a"
    by (rule conjunct1)
  from t have inj: "\<forall>a b c d. CHR '':'' \<notin> set a \<and> CHR '':'' \<notin> set b \<and> CHR '':'' \<notin> set c \<and> CHR '':'' \<notin> set d \<and>
        compat_key a b = compat_key c d \<longrightarrow> {a, b} = {c, d}"
    by (elim conjE)
  have k: "compat_key ''u1'' ''u2'' = compat_key ''u2'' ''u1''"
    using sym by (elim allE)
  have n1: "CHR '':'' \<notin> set ''u1''" and n2: "CHR '':'' \<notin> set ''u2''" by simp_all
  from inj have "CHR '':'' \<notin> set ''u1'' \<and> CHR '':'' \<notin> set ''u2'' \<and> CHR '':'' \<notin> set ''u2'' \<and>
      CHR '':'' \<notin> set ''u1'' \<and> compat_key ''u1'' ''u2'' = compat_key ''u2'' ''u1''
      \<longrightarrow> {''u1'', ''u2''} = {''u2'', ''u1''}"
    by (elim allE)
  with n1 n2 k have "{''u1'', ''u2''} = {''u2'', ''u1''}" by (elim impE) (intro conjI)
  with n1 n2 k show ?thesis by (intro conjI)
qed

subsection \<open>Expiry times\<close>

text \<open>
  C4 (as the code has it). The three expiry times are ordered
  \<open>list_ttl > compat_ttl > profile_ttl\<close> exactly when the base field \<open>cache_ttl\<close> is
  positive. Nothing validates the field: zero and negative values construct a
  configuration whose expiry times are not in that order.
\<close>

theorem ttl_ordering_iff_positive:
  "(compat_ttl cfg < list_ttl cfg \<and> profile_ttl cfg < compat_ttl cfg) \<longleftrightarrow> 0 < cache_ttl cfg"
  by (auto simp: compat_ttl_def list_ttl_def profile_ttl_def)

theorem ttl_ordering_iff_positive_witness:
  "0 < cache_ttl default_config \<and>
   compat_ttl default_config < list_ttl default_config \<and>
   profile_ttl default_config < compat_ttl default_config"
proof -
  have pos: "0 < cache_ttl default_config" by (simp add: default_config_def)
  with ttl_ordering_iff_positive [of default_config] show ?thesis by blast
qed

theorem ttl_ordering_zero_counterexample:
  "\<not> (compat_ttl (default_config\<lparr>cache_ttl := 0\<rparr>) < list_ttl (default_config\<lparr>cache_ttl := 0\<rparr>) \<and>
      profile_ttl (default_config\<lparr>cache_ttl := 0\<rparr>) < compat_ttl (default_config\<lparr>cache_ttl := 0\<rparr>))"
  by (simp add: compat_ttl_def list_ttl_def profile_ttl_def)

subsection \<open>Keys of different kinds\<close>

lemma user_profile_key_inject [simp]: "user_profile_key a = user_profile_key b \<longleftrightarrow> a = b"
  by (simp add: user_profile_key_def)

lemma matches_key_inject [simp]: "matches_key a = matches_key b \<longleftrightarrow> a = b"
  by (simp add: matches_key_def)

lemma compat_key_hd: "\<exists>rest. compat_key a b = CHR ''c'' # rest"
  by (simp add: compat_key_eq)

lemma user_profile_key_hd: "\<exists>rest. user_profile_key a = CHR ''u'' # rest"
  by (simp add: user_profile_key_def)

lemma matches_key_hd: "\<exists>rest. matches_key a = CHR ''m'' # rest"
  by (simp add: matches_key_def)

lemma keys_distinct [simp]:
  "user_profile_key a \<noteq> compat_key x y" "compat_key x y \<noteq> user_profile_key a"
  "user_profile_key a \<noteq> matches_key b" "matches_key b \<noteq> user_profile_key a"
  "compat_key x y \<noteq> matches_key b" "matches_key b \<noteq> compat_key x y"
  using compat_key_hd [of x y] user_profile_key_hd [of a] matches_key_hd [of b]
  by auto

subsection \<open>Cache manager, unfolded\<close>

lemma get_cached_profile_eq:
  "CacheManager_get_user_profile w u =
     (if redis_up w then
        (case redis_data w (user_profile_key u) of
           Some (RProfile p, e) \<Rightarrow> if now w < e then Some p else None
         | _ \<Rightarrow> None)
      else None)"
  by (simp add: CacheManager_get_user_profile_def redis_get_def
      split: option.splits redis_val.splits prod.splits)

lemma get_cached_score_eq:
  "CacheManager_get_compatibility_score w a b =
     (if redis_up w then
        (case redis_data w (compat_key a b) of
           Some (RScore v, e) \<Rightarrow> if now w < e then Some v else None
         | _ \<Rightarrow> None)
      else None)"
  by (simp add: CacheManager_get_compatibility_score_def redis_get_def
      split: option.splits redis_val.splits prod.splits)

lemma get_cached_matches_eq:
  "CacheManager_get_precomputed_matches w u =
     (if redis_up w then
        (case redis_data w (matches_key u) of
           Some (RMatches ms, e) \<Rightarrow> if now w < e then Some ms else None
         | _ \<Rightarrow> None)
      else None)"
  by (simp add: CacheManager_get_precomputed_matches_def redis_get_def
      split: option.splits redis_val.splits prod.splits)

lemma set_cached_profile_eq:
  "CacheManager_set_user_profile cfg w u p =
     (if redis_up w \<and> 0 < cache_ttl cfg
      then w\<lparr>redis_data := (redis_data w)(user_profile_key u \<mapsto> (RProfile p, now w + profile_ttl cfg))\<rparr>
      else w)"
  by (simp add: CacheManager_set_user_profile_def redis_setex_def profile_ttl_def)

lemma set_cached_score_eq:
  "CacheManager_set_compatibility_score rt cfg w a b v =
     (if redis_up w \<and> 0 < cache_ttl cfg
      then w\<lparr>redis_data := (redis_data w)(compat_key a b \<mapsto> (RScore (rt v), now w + compat_ttl cfg))\<rparr>
      else w)"
  by (simp add: CacheManager_set_compatibility_score_def redis_setex_def compat_ttl_def)

lemma set_cached_matches_eq:
  "CacheManager_set_precomputed_matches cfg w u ms =
     (if redis_up w \<and> 0 < cache_ttl cfg
      then w\<lparr>redis_data := (redis_data w)(matches_key u \<mapsto> (RMatches ms, now w + list_ttl cfg))\<rparr>
      else w)"
  by (simp add: CacheManager_set_precomputed_matches_def redis_setex_def list_ttl_def)

subsection \<open>The profile resolver\<close>

lemma db_get_eq:
  "DatabaseManager_get_user_profile w u =
     ((if db_up w then (case db_profiles w u of Some (x # xs) \<Rightarrow> Some (x # xs) | _ \<Rightarrow> None) else None),
      w\<lparr>db_reads := Suc (db_reads w)\<rparr>)"
  by (simp add: DatabaseManager_get_user_profile_def Let_def split: option.splits list.splits)

lemma truthy_iff: "truthy r \<longleftrightarrow> (\<exists>x xs. r = Some (x # xs))"
  by (cases r rule: truthy.cases) simp_all

lemma get_user_profile_hit:
  assumes "CacheManager_get_user_profile w u = Some (x # xs)"
  shows "get_user_profile cfg w u = (Some (x # xs), w\<lparr>cache_hits := Suc (cache_hits w)\<rparr>)"
  using assms by (simp add: get_user_profile_def)

lemma get_user_profile_miss:
  assumes "\<not> truthy (CacheManager_get_user_profile w u)"
  shows "get_user_profile cfg w u =
     (case fst (DatabaseManager_get_user_profile w u) of
        Some p \<Rightarrow> (Some p, CacheManager_set_user_profile cfg (w\<lparr>db_reads := Suc (db_reads w)\<rparr>) u p)
      | None \<Rightarrow> (None, w\<lparr>db_reads := Suc (db_reads w)\<rparr>))"
  using assms
  by (simp add: get_user_profile_def db_get_eq split: option.splits list.splits)

lemma db_get_nonempty:
  "fst (DatabaseManager_get_user_profile w u) = Some p \<Longrightarrow> p \<noteq> []"
  by (auto simp: db_get_eq split: if_splits option.splits list.splits)

lemma get_user_profile_nonempty:
  assumes "fst (get_user_profile cfg w u) = Some p"
  shows "p \<noteq> []"
proof (cases "truthy (CacheManager_get_user_profile w u)")
  case True
  then obtain x xs where "CacheManager_get_user_profile w u = Some (x # xs)"
    by (auto simp: truthy_iff)
  with assms show ?thesis by (auto simp: get_user_profile_hit)
next
  case False
  with assms show ?thesis
    by (auto simp: get_user_profile_miss split: option.splits dest: db_get_nonempty)
qed

lemma get_user_profile_frame:
  assumes "get_user_profile cfg w u = (r, w')"
  shows "redis_up w' = redis_up w" "now w' = now w" "db_up w' = db_up w"
    "db_profiles w' = db_profiles w" "db_active w' = db_active w"
    "model_calls w' = model_calls w" "request_count w' = request_count w"
    "k \<noteq> user_profile_key u \<Longrightarrow> redis_data w' k = redis_data w k"
proof -
  have "redis_up w' = redis_up w \<and> now w' = now w \<and> db_up w' = db_up w \<and>
    db_profiles w' = db_profiles w \<and> db_active w' = db_active w \<and>
    model_calls w' = model_calls w \<and> request_count w' = request_count w \<and>
    (k \<noteq> user_profile_key u \<longrightarrow> redis_data w' k = redis_data w k)"
  proof (cases "truthy (CacheManager_get_user_profile w u)")
    case True
    then obtain x xs where "CacheManager_get_user_profile w u = Some (x # xs)"
      by (auto simp: truthy_iff)
    with assms show ?thesis by (auto simp: get_user_profile_hit)
  next
    case False
    with assms show ?thesis
      by (auto simp: get_user_profile_miss set_cached_profile_eq split: option.splits if_splits)
  qed
  then show "redis_up w' = redis_up w" "now w' = now w" "db_up w' = db_up w"
    "db_profiles w' = db_profiles w" "db_active w' = db_active w"
    "model_calls w' = model_calls w" "request_count w' = request_count w"
    "k \<noteq> user_profile_key u \<Longrightarrow> redis_data w' k = redis_data w k"
    by simp_all
qed

lemma advance_fields [simp]:
  "redis_up (advance d w) = redis_up w" "redis_data (advance d w) = redis_data w"
  "now (advance d w) = now w + d" "db_up (advance d w) = db_up w"
  "db_profiles (advance d w) = db_profiles w" "db_active (advance d w) = db_active w"
  "cache_hits (advance d w) = cache_hits w" "request_count (advance d w) = request_count w"
  "db_reads (advance d w) = db_reads w" "model_calls (advance d w) = model_calls w"
  by (simp_all add: advance_def)

lemma cached_profile_counters [simp]:
  "CacheManager_get_user_profile (w\<lparr>db_reads := n\<rparr>) u = CacheManager_get_user_profile w u"
  "CacheManager_get_user_profile (w\<lparr>cache_hits := n\<rparr>) u = CacheManager_get_user_profile w u"
  "CacheManager_get_user_profile (w\<lparr>model_calls := n\<rparr>) u = CacheManager_get_user_profile w u"
  "CacheManager_get_user_profile (w\<lparr>request_count := n\<rparr>) u = CacheManager_get_user_profile w u"
  by (simp_all add: get_cached_profile_eq split: option.splits prod.splits redis_val.splits)

lemma cached_score_counters [simp]:
  "CacheManager_get_compatibility_score (w\<lparr>db_reads := n\<rparr>) a b = CacheManager_get_compatibility_score w a b"
  "CacheManager_get_compatibility_score (w\<lparr>cache_hits := n\<rparr>) a b = CacheManager_get_compatibility_score w a b"
  "CacheManager_get_compatibility_score (w\<lparr>model_calls := n\<rparr>) a b = CacheManager_get_compatibility_score w a b"
  "CacheManager_get_compatibility_score (w\<lparr>request_count := n\<rparr>) a b = CacheManager_get_compatibility_score w a b"
  by (simp_all add: get_cached_score_eq split: option.splits prod.splits redis_val.splits)

lemma db_get_counters [simp]:
  "fst (DatabaseManager_get_user_profile (w\<lparr>db_reads := n\<rparr>) u) = fst (DatabaseManager_get_user_profile w u)"
  "fst (DatabaseManager_get_user_profile (w\<lparr>cache_hits := n\<rparr>) u) = fst (DatabaseManager_get_user_profile w u)"
  "fst (DatabaseManager_get_user_profile (w\<lparr>model_calls := n\<rparr>) u) = fst (DatabaseManager_get_user_profile w u)"
  by (simp_all add: db_get_eq)

lemma resolve_found:
  assumes cold: "\<not> truthy (CacheManager_get_user_profile w u)"
    and db: "fst (DatabaseManager_get_user_profile w u) = Some p"
    and up: "redis_up w" and ttl: "0 < cache_ttl cfg"
  shows "get_user_profile cfg w u =
     (Some p, w\<lparr>db_reads := Suc (db_reads w),
               redis_data := (redis_data w)(user_profile_key u \<mapsto> (RProfile p, now w + profile_ttl cfg))\<rparr>)"
  using assms by (simp add: get_user_profile_miss set_cached_profile_eq)

lemma resolve_not_found:
  assumes cold: "\<not> truthy (CacheManager_get_user_profile w u)"
    and db: "fst (DatabaseManager_get_user_profile w u) = None"
  shows "get_user_profile cfg w u = (None, w\<lparr>db_reads := Suc (db_reads w)\<rparr>)"
  using assms by (simp add: get_user_profile_miss)

lemma resolve_cached_within_ttl:
  assumes "redis_up w" "redis_data w (user_profile_key u) = Some (RProfile p, e)" "now w < e" "p \<noteq> []"
  shows "get_user_profile cfg w u = (Some p, w\<lparr>cache_hits := Suc (cache_hits w)\<rparr>)"
proof -
  obtain x xs where p: "p = x # xs" using assms(4) by (cases p) simp_all
  have "CacheManager_get_user_profile w u = Some (x # xs)"
    using assms(1-3) p by (simp add: get_cached_profile_eq)
  then show ?thesis unfolding p by (rule get_user_profile_hit)
qed

lemma cached_profile_cong:
  assumes "redis_up w' = redis_up w" "now w' = now w"
    "redis_data w' (user_profile_key u) = redis_data w (user_profile_key u)"
  shows "CacheManager_get_user_profile w' u = CacheManager_get_user_profile w u"
  using assms by (simp add: get_cached_profile_eq split: option.splits prod.splits redis_val.splits)

lemma cached_score_cong:
  assumes "redis_up w' = redis_up w" "now w' = now w"
    "redis_data w' (compat_key a b) = redis_data w (compat_key a b)"
  shows "CacheManager_get_compatibility_score w' a b = CacheManager_get_compatibility_score w a b"
  using assms by (simp add: get_cached_score_eq split: option.splits prod.splits redis_val.splits)

lemma db_get_cong:
  assumes "db_up w' = db_up w" "db_profiles w' u = db_profiles w u"
  shows "fst (DatabaseManager_get_user_profile w' u) = fst (DatabaseManager_get_user_profile w u)"
  using assms by (simp add: db_get_eq)

lemma get_user_profile_fst_eq:
  "fst (get_user_profile cfg w u) =
     (if truthy (CacheManager_get_user_profile w u) then CacheManager_get_user_profile w u
      else fst (DatabaseManager_get_user_profile w u))"
proof (cases "truthy (CacheManager_get_user_profile w u)")
  case True
  then obtain x xs where "CacheManager_get_user_profile w u = Some (x # xs)"
    by (auto simp: truthy_iff)
  then show ?thesis by (simp add: get_user_profile_hit)
next
  case False
  then show ?thesis by (simp add: get_user_profile_miss split: option.splits)
qed

lemma get_user_profile_fst_cong:
  assumes "redis_up w' = redis_up w" "now w' = now w"
    "redis_data w' (user_profile_key u) = redis_data w (user_profile_key u)"
    "db_up w' = db_up w" "db_profiles w' u = db_profiles w u"
  shows "fst (get_user_profile cfg w' u) = fst (get_user_profile cfg w u)"
  using cached_profile_cong [OF assms(1-3)] db_get_cong [OF assms(4,5)]
  by (simp add: get_user_profile_fst_eq)

lemma resolve_counters:
  "fst (get_user_profile cfg (w\<lparr>cache_hits := n\<rparr>) u) = fst (get_user_profile cfg w u)"
  "fst (get_user_profile cfg (w\<lparr>db_reads := n\<rparr>) u) = fst (get_user_profile cfg w u)"
  "fst (get_user_profile cfg (w\<lparr>model_calls := n\<rparr>) u) = fst (get_user_profile cfg w u)"
  by (rule get_user_profile_fst_cong; simp)+

lemma resolve_twice:
  "fst (get_user_profile cfg (snd (get_user_profile cfg w a)) b) = fst (get_user_profile cfg w b)"
proof (cases "a = b")
  case False
  obtain r w1 where r: "get_user_profile cfg w a = (r, w1)" by (cases "get_user_profile cfg w a")
  have "user_profile_key b \<noteq> user_profile_key a" using False by simp
  from get_user_profile_frame(8) [OF r this]
  have "redis_data w1 (user_profile_key b) = redis_data w (user_profile_key b)" .
  then have "fst (get_user_profile cfg w1 b) = fst (get_user_profile cfg w b)"
    using get_user_profile_frame(1-4) [OF r]
    by (intro get_user_profile_fst_cong) simp_all
  then show ?thesis by (simp add: r)
next
  case True
  have "fst (get_user_profile cfg (snd (get_user_profile cfg w a)) a) = fst (get_user_profile cfg w a)"
  proof (cases "truthy (CacheManager_get_user_profile w a)")
    case hit: True
    then obtain x xs where "CacheManager_get_user_profile w a = Some (x # xs)"
      by (auto simp: truthy_iff)
    then have "get_user_profile cfg w a = (Some (x # xs), w\<lparr>cache_hits := Suc (cache_hits w)\<rparr>)"
      by (rule get_user_profile_hit)
    then have "snd (get_user_profile cfg w a) = w\<lparr>cache_hits := Suc (cache_hits w)\<rparr>" by simp
    then show ?thesis by (simp only: resolve_counters)
  next
    case miss: False
    show ?thesis
    proof (cases "fst (DatabaseManager_get_user_profile w a)")
      case None
      with miss have "get_user_profile cfg w a = (None, w\<lparr>db_reads := Suc (db_reads w)\<rparr>)"
        by (rule resolve_not_found)
      then have "snd (get_user_profile cfg w a) = w\<lparr>db_reads := Suc (db_reads w)\<rparr>" by simp
      then show ?thesis by (simp only: resolve_counters)
    next
      case (Some p)
      show ?thesis
      proof (cases "redis_up w \<and> 0 < cache_ttl cfg")
        case False
        then have "get_user_profile cfg w a = (Some p, w\<lparr>db_reads := Suc (db_reads w)\<rparr>)"
          using miss Some by (auto simp: get_user_profile_miss set_cached_profile_eq)
        then have "snd (get_user_profile cfg w a) = w\<lparr>db_reads := Suc (db_reads w)\<rparr>" by simp
        then show ?thesis by (simp only: resolve_counters)
      next
        case ok: True
        define w1 where "w1 = w\<lparr>db_reads := Suc (db_reads w),
               redis_data := (redis_data w)(user_profile_key a \<mapsto> (RProfile p, now w + profile_ttl cfg))\<rparr>"
        have 1: "get_user_profile cfg w a = (Some p, w1)"
          using miss Some ok by (simp add: resolve_found w1_def)
        have ne: "p \<noteq> []" using Some by (rule db_get_nonempty)
        have 2: "get_user_profile cfg w1 a = (Some p, w1\<lparr>cache_hits := Suc (cache_hits w1)\<rparr>)"
          by (rule resolve_cached_within_ttl [where e = "now w + profile_ttl cfg"])
            (use ok ne in \<open>simp_all add: w1_def profile_ttl_def\<close>)
        show ?thesis by (simp add: 1 2)
      qed
    qed
  qed
  with True show ?thesis by simp
qed

subsection \<open>The pairwise scorer\<close>

lemma np_clip_bounds: "lo \<le> hi \<Longrightarrow> lo \<le> np_clip x lo hi \<and> np_clip x lo hi \<le> hi"
  by (simp add: np_clip_def min_def max_def)

lemma hybrid_score_bounds:
  assumes "HybridRecommender_predict_compatibility m p q = Inr v"
  shows "0 \<le> v \<and> v \<le> 1"
proof -
  from assms obtain x where "v = np_clip x 0 1"
    by (auto simp: HybridRecommender_predict_compatibility_def split: sum.splits)
  then show ?thesis using np_clip_bounds [of 0 1 x] by simp
qed

lemma predict_hit:
  assumes "CacheManager_get_compatibility_score w a b = Some v"
  shows "predict_compatibility rt cfg m w a b = (v, w\<lparr>cache_hits := Suc (cache_hits w)\<rparr>)"
  using assms by (simp add: predict_compatibility_def)

lemma predict_not_found:
  assumes "CacheManager_get_compatibility_score w a b = None"
    and "get_user_profile cfg w a = (r1, w1)" "get_user_profile cfg w1 b = (r2, w2)"
    and "r1 = None \<or> r2 = None"
  shows "predict_compatibility rt cfg m w a b = (0.5, w2)"
  using assms by (auto simp: predict_compatibility_def split: option.splits)

lemma predict_computed:
  assumes "CacheManager_get_compatibility_score w a b = None"
    and "get_user_profile cfg w a = (Some p1, w1)" "get_user_profile cfg w1 b = (Some p2, w2)"
    and "HybridRecommender_predict_compatibility m
           (filter (\<lambda>(k, v). k \<noteq> ''user_id'') p1) (filter (\<lambda>(k, v). k \<noteq> ''user_id'') p2) = Inr v"
  shows "predict_compatibility rt cfg m w a b =
     (v, CacheManager_set_compatibility_score rt cfg (w2\<lparr>model_calls := Suc (model_calls w2)\<rparr>) a b v)"
proof -
  have "p1 \<noteq> []" "p2 \<noteq> []"
    using assms(2,3) get_user_profile_nonempty [of cfg w a p1]
      get_user_profile_nonempty [of cfg w1 b p2] by simp_all
  then have "truthy (Some p1)" "truthy (Some p2)" by (simp_all add: truthy_iff neq_Nil_conv)
  then show ?thesis using assms by (simp add: predict_compatibility_def Let_def)
qed

lemma predict_raised:
  assumes "CacheManager_get_compatibility_score w a b = None"
    and "get_user_profile cfg w a = (Some p1, w1)" "get_user_profile cfg w1 b = (Some p2, w2)"
    and "HybridRecommender_predict_compatibility m
           (filter (\<lambda>(k, v). k \<noteq> ''user_id'') p1) (filter (\<lambda>(k, v). k \<noteq> ''user_id'') p2) = Inl e"
  shows "predict_compatibility rt cfg m w a b = (0.5, w2\<lparr>model_calls := Suc (model_calls w2)\<rparr>)"
proof -
  have "p1 \<noteq> []" "p2 \<noteq> []"
    using assms(2,3) get_user_profile_nonempty [of cfg w a p1]
      get_user_profile_nonempty [of cfg w1 b p2] by simp_all
  then have "truthy (Some p1)" "truthy (Some p2)" by (simp_all add: truthy_iff neq_Nil_conv)
  then show ?thesis using assms by (simp add: predict_compatibility_def Let_def)
qed

lemma predict_no_compat_write:
  assumes miss: "CacheManager_get_compatibility_score w a b = None"
    and nf: "fst (get_user_profile cfg w a) = None \<or> fst (get_user_profile cfg w b) = None"
  shows "fst (predict_compatibility rt cfg m w a b) = 0.5"
    and "redis_data (snd (predict_compatibility rt cfg m w a b)) (compat_key x y) = redis_data w (compat_key x y)"
    and "model_calls (snd (predict_compatibility rt cfg m w a b)) = model_calls w"
proof -
  obtain r1 w1 where 1: "get_user_profile cfg w a = (r1, w1)" by (cases "get_user_profile cfg w a")
  obtain r2 w2 where 2: "get_user_profile cfg w1 b = (r2, w2)" by (cases "get_user_profile cfg w1 b")
  have "r2 = fst (get_user_profile cfg w b)"
    using resolve_twice [of cfg w a b] by (simp add: 1 2)
  with nf 1 have "r1 = None \<or> r2 = None" by auto
  with miss 1 2 have p: "predict_compatibility rt cfg m w a b = (0.5, w2)"
    by (rule predict_not_found)
  show "fst (predict_compatibility rt cfg m w a b) = 0.5" by (simp add: p)
  have "redis_data w2 (compat_key x y) = redis_data w1 (compat_key x y)"
    by (rule get_user_profile_frame(8) [OF 2]) simp
  also have "\<dots> = redis_data w (compat_key x y)"
    by (rule get_user_profile_frame(8) [OF 1]) simp
  finally show "redis_data (snd (predict_compatibility rt cfg m w a b)) (compat_key x y)
      = redis_data w (compat_key x y)"
    by (simp add: p)
  show "model_calls (snd (predict_compatibility rt cfg m w a b)) = model_calls w"
    using get_user_profile_frame(6) [OF 1] get_user_profile_frame(6) [OF 2] by (simp add: p)
qed

lemma predict_miss_bounded:
  assumes miss: "CacheManager_get_compatibility_score w a b = None"
  shows "0 \<le> fst (predict_compatibility rt cfg m w a b) \<and> fst (predict_compatibility rt cfg m w a b) \<le> 1"
proof -
  obtain r1 w1 where 1: "get_user_profile cfg w a = (r1, w1)" by (cases "get_user_profile cfg w a")
  obtain r2 w2 where 2: "get_user_profile cfg w1 b = (r2, w2)" by (cases "get_user_profile cfg w1 b")
  show ?thesis
  proof (cases "r1 = None \<or> r2 = None")
    case True
    with miss 1 2 have "predict_compatibility rt cfg m w a b = (0.5, w2)"
      by (rule predict_not_found)
    then show ?thesis by simp
  next
    case False
    then obtain p1 p2 where r: "r1 = Some p1" "r2 = Some p2" by auto
    show ?thesis
    proof (cases "HybridRecommender_predict_compatibility m
           (filter (\<lambda>(k, v). k \<noteq> ''user_id'') p1) (filter (\<lambda>(k, v). k \<noteq> ''user_id'') p2)")
      case (Inl e)
      from predict_raised [OF miss 1 [unfolded r] 2 [unfolded r] Inl]
      show ?thesis by simp
    next
      case (Inr v)
      from predict_computed [OF miss 1 [unfolded r] 2 [unfolded r] Inr] hybrid_score_bounds [OF Inr]
      show ?thesis by simp
    qed
  qed
qed

lemma predict_writes:
  assumes miss: "CacheManager_get_compatibility_score w a b = None"
    and up: "redis_up w" and ttl: "0 < cache_ttl cfg"
    and pa: "fst (get_user_profile cfg w a) = Some p1"
    and pb: "fst (get_user_profile cfg w b) = Some p2"
    and sc: "HybridRecommender_predict_compatibility m
           (filter (\<lambda>(k, v). k \<noteq> ''user_id'') p1) (filter (\<lambda>(k, v). k \<noteq> ''user_id'') p2) = Inr v"
  shows "fst (predict_compatibility rt cfg m w a b) = v"
    and "redis_up (snd (predict_compatibility rt cfg m w a b))"
    and "now (snd (predict_compatibility rt cfg m w a b)) = now w"
    and "redis_data (snd (predict_compatibility rt cfg m w a b)) (compat_key a b)
           = Some (RScore (rt v), now w + compat_ttl cfg)"
    and "model_calls (snd (predict_compatibility rt cfg m w a b)) = Suc (model_calls w)"
proof -
  obtain r1 w1 where 1: "get_user_profile cfg w a = (r1, w1)" by (cases "get_user_profile cfg w a")
  obtain r2 w2 where 2: "get_user_profile cfg w1 b = (r2, w2)" by (cases "get_user_profile cfg w1 b")
  have r1: "r1 = Some p1" using pa 1 by simp
  have r2: "r2 = Some p2" using resolve_twice [of cfg w a b] pb by (simp add: 1 2)
  note f1 = get_user_profile_frame [OF 1] and f2 = get_user_profile_frame [OF 2]
  have p: "predict_compatibility rt cfg m w a b =
      (v, CacheManager_set_compatibility_score rt cfg (w2\<lparr>model_calls := Suc (model_calls w2)\<rparr>) a b v)"
    by (rule predict_computed [OF miss 1 [unfolded r1] 2 [unfolded r2] sc])
  have up2: "redis_up w2" using up f1(1) f2(1) by simp
  have now2: "now w2 = now w" using f1(2) f2(2) by simp
  have mc2: "model_calls w2 = model_calls w" using f1(6) f2(6) by simp
  show "fst (predict_compatibility rt cfg m w a b) = v" by (simp add: p)
  show "redis_up (snd (predict_compatibility rt cfg m w a b))"
    using up2 ttl by (simp add: p set_cached_score_eq)
  show "now (snd (predict_compatibility rt cfg m w a b)) = now w"
    using up2 ttl now2 by (simp add: p set_cached_score_eq)
  show "redis_data (snd (predict_compatibility rt cfg m w a b)) (compat_key a b)
           = Some (RScore (rt v), now w + compat_ttl cfg)"
    using up2 ttl now2 by (simp add: p set_cached_score_eq)
  show "model_calls (snd (predict_compatibility rt cfg m w a b)) = Suc (model_calls w)"
    using up2 ttl mc2 by (simp add: p set_cached_score_eq)
qed

lemma predict_cached_within_ttl:
  assumes "redis_up w" "redis_data w (compat_key a b) = Some (RScore v, e)" "now w + d < e"
    and "compat_key x y = compat_key a b"
  shows "predict_compatibility rt cfg m (advance d w) x y
           = (v, (advance d w)\<lparr>cache_hits := Suc (cache_hits w)\<rparr>)"
proof -
  have "CacheManager_get_compatibility_score (advance d w) x y = Some v"
    using assms by (simp add: get_cached_score_eq)
  from predict_hit [OF this] show ?thesis by simp
qed

subsection \<open>The example data, evaluated\<close>

lemma strip_uniform_profile:
  "filter (\<lambda>(k, v). k \<noteq> ''user_id'') (uniform_profile uid x) = tl (uniform_profile uid x)"
  by (simp add: uniform_profile_def)

lemma encode_uniform_profile:
  "encode_user_features (tl (uniform_profile uid x)) = Inr (replicate 18 x)"
  by (simp add: encode_user_features_def encode_dietary_journey_def encode_values_alignment_def
      encode_lifestyle_compatibility_def encode_behavioral_features_def dict_get_def
      uniform_profile_def eval_nat_numeral)

lemma norm_zero: "np_linalg_norm (replicate n 0) = 0"
  by (induction n) (simp_all add: np_linalg_norm_def)

lemma collab_zero_left:
  "compute_collaborative_score (tl (uniform_profile a 0)) (tl (uniform_profile b x)) = Inr 0.5"
  by (simp add: compute_collaborative_score_def encode_uniform_profile norm_zero Let_def)

lemma collab_zero_right:
  "compute_collaborative_score (tl (uniform_profile b x)) (tl (uniform_profile a 0)) = Inr 0.5"
  by (simp add: compute_collaborative_score_def encode_uniform_profile norm_zero Let_def)

lemma first_feature_zero_half:
  "HybridRecommender_predict_compatibility first_feature_model
     (tl (uniform_profile ''a'' 0)) (tl (uniform_profile ''b'' 0.5)) = Inr 0.3"
  by (simp add: HybridRecommender_predict_compatibility_def encode_uniform_profile
      collab_zero_left CompatibilityScorer_predict_def first_feature_model_def np_clip_def
      eval_nat_numeral)

lemma first_feature_half_zero:
  "HybridRecommender_predict_compatibility first_feature_model
     (tl (uniform_profile ''b'' 0.5)) (tl (uniform_profile ''a'' 0)) = Inr 0.5"
  by (simp add: HybridRecommender_predict_compatibility_def encode_uniform_profile
      collab_zero_right CompatibilityScorer_predict_def first_feature_model_def np_clip_def
      eval_nat_numeral)

lemma demo_world_cold:
  "CacheManager_get_compatibility_score demo_world x y = None"
  "CacheManager_get_user_profile demo_world x = None"
  "CacheManager_get_precomputed_matches demo_world x = None"
  by (simp_all add: get_cached_score_eq get_cached_profile_eq get_cached_matches_eq demo_world_def)

lemma uniform_profile_nonempty: "uniform_profile uid x \<noteq> []"
  by (simp add: uniform_profile_def)

lemma demo_world_store:
  "fst (DatabaseManager_get_user_profile demo_world ''a'') = Some (uniform_profile ''a'' 0)"
  "fst (DatabaseManager_get_user_profile demo_world ''b'') = Some (uniform_profile ''b'' 0.5)"
  "fst (DatabaseManager_get_user_profile demo_world ''c'') = Some (uniform_profile ''c'' 1)"
  "fst (DatabaseManager_get_user_profile demo_world ''u'') = Some (uniform_profile ''u'' 0.5)"
  "fst (DatabaseManager_get_user_profile demo_world ''x'') = None"
  using uniform_profile_nonempty
  by (simp_all add: db_get_eq demo_world_def neq_Nil_conv split: list.splits)

lemma demo_world_resolves:
  "fst (get_user_profile cfg demo_world ''a'') = Some (uniform_profile ''a'' 0)"
  "fst (get_user_profile cfg demo_world ''b'') = Some (uniform_profile ''b'' 0.5)"
  "fst (get_user_profile cfg demo_world ''c'') = Some (uniform_profile ''c'' 1)"
  "fst (get_user_profile cfg demo_world ''u'') = Some (uniform_profile ''u'' 0.5)"
  "fst (get_user_profile cfg demo_world ''x'') = None"
  by (simp_all add: get_user_profile_fst_eq demo_world_cold demo_world_store)

lemma untrained_raises:
  "HybridRecommender_predict_compatibility untrained_model
     (tl (uniform_profile a x)) (tl (uniform_profile b y)) = Inl ValueError"
  by (simp add: HybridRecommender_predict_compatibility_def encode_uniform_profile
      CompatibilityScorer_predict_def untrained_model_def)

lemma scored_world_scores:
  "CacheManager_get_compatibility_score scored_world ''u'' ''a'' = Some 0.9"
  "CacheManager_get_compatibility_score scored_world ''u'' ''b'' = Some 0.9"
  "CacheManager_get_compatibility_score scored_world ''u'' ''c'' = Some 0.7"
  by (simp_all add: get_cached_score_eq scored_world_def demo_world_def compat_key_eq)

subsection \<open>Ranking\<close>

lemma sort_by_score_desc_descending: "score_descending (sort_by_score_desc rs)"
proof -
  have "sorted (map compatibility_score (sort_key compatibility_score (rev rs)))"
    by (rule sorted_sort_key)
  then have "sorted_wrt (\<lambda>r s. compatibility_score r \<le> compatibility_score s)
      (sort_key compatibility_score (rev rs))"
    by (simp add: sorted_wrt_map)
  then show ?thesis
    by (simp add: score_descending_def sort_by_score_desc_def sorted_wrt_rev)
qed

lemma sort_by_score_desc_mset: "mset (sort_by_score_desc rs) = mset rs"
  by (simp add: sort_by_score_desc_def)

lemma sort_by_score_desc_length: "length (sort_by_score_desc rs) = length rs"
  by (simp add: sort_by_score_desc_def)

lemma sort_by_score_desc_stable:
  "filter (\<lambda>r. compatibility_score r = k) (sort_by_score_desc rs)
     = filter (\<lambda>r. compatibility_score r = k) rs"
proof -
  have "filter (\<lambda>r. compatibility_score r = k) (sort_by_score_desc rs)
      = rev (filter (\<lambda>r. compatibility_score r = k) (sort_key compatibility_score (rev rs)))"
    by (simp add: sort_by_score_desc_def rev_filter)
  also have "\<dots> = rev (filter (\<lambda>r. compatibility_score r = k) (rev rs))"
    by (simp only: sort_key_stable)
  also have "\<dots> = filter (\<lambda>r. compatibility_score r = k) rs"
    by (simp add: rev_filter)
  finally show ?thesis .
qed

lemma py_slice_to_take: "\<exists>n. py_slice_to xs k = take n xs"
  by (auto simp: py_slice_to_def)

lemma py_slice_to_length: "0 \<le> k \<Longrightarrow> length (py_slice_to xs k) = min (length xs) (nat k)"
  by (simp add: py_slice_to_def min_def)

lemma score_descending_slice: "score_descending rs \<Longrightarrow> score_descending (py_slice_to rs k)"
proof -
  assume a: "score_descending rs"
  obtain n where "py_slice_to rs k = take n rs" using py_slice_to_take by blast
  with a show ?thesis by (simp add: score_descending_def sorted_wrt_take)
qed

lemma gather_length: "length (fst (gather_predict rt cfg m w u cands)) = length cands"
proof (induction cands arbitrary: w)
  case Nil
  show ?case by simp
next
  case (Cons c cands)
  obtain s w1 where 1: "predict_compatibility rt cfg m w u c = (s, w1)"
    by (cases "predict_compatibility rt cfg m w u c")
  obtain ss w2 where 2: "gather_predict rt cfg m w1 u cands = (ss, w2)"
    by (cases "gather_predict rt cfg m w1 u cands")
  from Cons.IH [of w1] 2 have "length ss = length cands" by simp
  then show ?case by (simp add: 1 2)
qed

lemma make_recommendations_ids:
  "length scores = length cands \<Longrightarrow> map rec_user_id (make_recommendations t cands scores) = cands"
  by (induction cands arbitrary: scores) (auto simp: make_recommendations_def length_Suc_conv)

lemma make_recommendations_length:
  "length scores = length cands \<Longrightarrow> length (make_recommendations t cands scores) = length cands"
  by (simp add: make_recommendations_def)

lemma get_recommendations_supplied:
  assumes "cands \<noteq> []" and "get_user_profile cfg w u = (Some p, w1)"
    and "gather_predict rt cfg m w1 u cands = (scores, w2)"
  shows "get_recommendations rt cfg m w u (Some cands) top_k =
     (py_slice_to (sort_by_score_desc (make_recommendations (now w2) cands scores)) top_k,
      w2\<lparr>request_count := Suc (request_count w2)\<rparr>)"
proof -
  have "p \<noteq> []" using assms(2) get_user_profile_nonempty [of cfg w u p] by simp
  then have t: "truthy (Some p)" "truthy (Some cands)"
    using assms(1) by (simp_all add: truthy_iff neq_Nil_conv)
  show ?thesis using assms t by (simp add: get_recommendations_def Let_def)
qed

lemma get_recommendations_generated:
  assumes "\<not> truthy (CacheManager_get_precomputed_matches w u)" and "\<not> truthy candidate_ids"
    and "get_user_profile cfg w u = (Some p, w1)"
    and "cands = filter (\<lambda>cid. cid \<noteq> u) (DatabaseManager_get_active_users w1 (max_candidates cfg))"
    and "gather_predict rt cfg m w1 u cands = (scores, w2)"
  shows "get_recommendations rt cfg m w u candidate_ids top_k =
     (py_slice_to (sort_by_score_desc (make_recommendations (now w2) cands scores)) top_k,
      (if cands = []
       then (CacheManager_set_precomputed_matches cfg w2 u
               (py_slice_to (sort_by_score_desc (make_recommendations (now w2) cands scores)) 50))
            \<lparr>request_count := Suc (request_count w2)\<rparr>
       else w2\<lparr>request_count := Suc (request_count w2)\<rparr>))"
proof -
  have "p \<noteq> []" using assms(3) get_user_profile_nonempty [of cfg w u p] by simp
  then have t: "truthy (Some p)" by (simp add: truthy_iff neq_Nil_conv)
  show ?thesis using assms(1,2,3,5) t
    by (simp add: get_recommendations_def Let_def assms(4) [symmetric] set_cached_matches_eq)
qed

lemma resolve_keeps_scores:
  assumes "get_user_profile cfg w u = (r, w1)"
  shows "CacheManager_get_compatibility_score w1 a b = CacheManager_get_compatibility_score w a b"
proof (rule cached_score_cong)
  show "redis_up w1 = redis_up w" by (rule get_user_profile_frame(1) [OF assms])
  show "now w1 = now w" by (rule get_user_profile_frame(2) [OF assms])
  show "redis_data w1 (compat_key a b) = redis_data w (compat_key a b)"
    by (rule get_user_profile_frame(8) [OF assms]) simp
qed

lemma gather_hits:
  assumes "\<forall>c \<in> set cands. CacheManager_get_compatibility_score w u c = Some (f c)"
  shows "gather_predict rt cfg m w u cands = (map f cands, w\<lparr>cache_hits := cache_hits w + length cands\<rparr>)"
  using assms
proof (induction cands arbitrary: w)
  case Nil
  show ?case by simp
next
  case (Cons c cands)
  have 1: "predict_compatibility rt cfg m w u c = (f c, w\<lparr>cache_hits := Suc (cache_hits w)\<rparr>)"
    using Cons.prems by (intro predict_hit) simp
  have "\<forall>c \<in> set cands.
      CacheManager_get_compatibility_score (w\<lparr>cache_hits := Suc (cache_hits w)\<rparr>) u c = Some (f c)"
    using Cons.prems by simp
  from Cons.IH [OF this] show ?case by (simp add: 1)
qed

lemma scored_world_store:
  "CacheManager_get_user_profile scored_world ''u'' = None"
  "fst (DatabaseManager_get_user_profile scored_world ''u'') = Some (uniform_profile ''u'' 0.5)"
  "fst (get_user_profile cfg scored_world ''u'') = Some (uniform_profile ''u'' 0.5)"
proof -
  show 1: "CacheManager_get_user_profile scored_world ''u'' = None"
    by (simp add: get_cached_profile_eq scored_world_def demo_world_def compat_key_eq
        user_profile_key_def)
  have "fst (DatabaseManager_get_user_profile scored_world ''u'')
      = fst (DatabaseManager_get_user_profile demo_world ''u'')"
    by (rule db_get_cong) (simp_all add: scored_world_def)
  then show 2: "fst (DatabaseManager_get_user_profile scored_world ''u'') = Some (uniform_profile ''u'' 0.5)"
    by (simp add: demo_world_store)
  show "fst (get_user_profile cfg scored_world ''u'') = Some (uniform_profile ''u'' 0.5)"
    by (simp add: get_user_profile_fst_eq 1 2)
qed

lemma scored_world_ranking:
  assumes "set cands \<subseteq> {''a'', ''b'', ''c''}" "cands \<noteq> []"
  shows "\<exists>t. fst (get_recommendations rt cfg m scored_world ''u'' (Some cands) top_k) =
     py_slice_to (sort_by_score_desc (make_recommendations t cands
        (map (\<lambda>c. if c = ''c'' then 0.7 else 0.9) cands))) top_k"
proof -
  obtain w1 where 1: "get_user_profile cfg scored_world ''u'' = (Some (uniform_profile ''u'' 0.5), w1)"
    using scored_world_store(3) [of cfg] by (cases "get_user_profile cfg scored_world ''u''") simp
  have "\<forall>c \<in> set cands. CacheManager_get_compatibility_score w1 ''u'' c
      = Some (if c = ''c'' then 0.7 else 0.9)"
    using assms(1) by (auto simp: resolve_keeps_scores [OF 1] scored_world_scores)
  from gather_hits [OF this]
  have 2: "gather_predict rt cfg m w1 ''u'' cands
      = (map (\<lambda>c. if c = ''c'' then 0.7 else 0.9) cands, w1\<lparr>cache_hits := cache_hits w1 + length cands\<rparr>)" .
  have "fst (get_recommendations rt cfg m scored_world ''u'' (Some cands) top_k) =
     py_slice_to (sort_by_score_desc (make_recommendations (now w1) cands
        (map (\<lambda>c. if c = ''c'' then 0.7 else 0.9) cands))) top_k"
    using get_recommendations_supplied [OF assms(2) 1 2, of top_k] by simp
  then show ?thesis by (rule exI)
qed

subsection \<open>What a call leaves unchanged\<close>

lemma get_user_profile_keeps_key:
  assumes "get_user_profile cfg w u = (r, w')"
    and "k \<noteq> user_profile_key u \<or> fst (DatabaseManager_get_user_profile w u) = None"
  shows "redis_data w' k = redis_data w k"
proof (cases "k \<noteq> user_profile_key u")
  case True
  then show ?thesis by (rule get_user_profile_frame(8) [OF assms(1)])
next
  case False
  with assms(2) have db: "fst (DatabaseManager_get_user_profile w u) = None" by simp
  show ?thesis
  proof (cases "truthy (CacheManager_get_user_profile w u)")
    case True
    then obtain x xs where "CacheManager_get_user_profile w u = Some (x # xs)"
      by (auto simp: truthy_iff)
    from get_user_profile_hit [OF this, of cfg] assms(1) show ?thesis by auto
  next
    case False
    from resolve_not_found [OF False db, of cfg] assms(1) show ?thesis by auto
  qed
qed

lemma get_user_profile_keeps_store:
  assumes "get_user_profile cfg w u = (r, w')"
  shows "fst (DatabaseManager_get_user_profile w' x) = fst (DatabaseManager_get_user_profile w x)"
  using get_user_profile_frame(3,4) [OF assms] by (intro db_get_cong) simp_all

lemma predict_frame:
  assumes "predict_compatibility rt cfg m w a b = (v, w')"
  shows "redis_up w' = redis_up w" "now w' = now w" "db_up w' = db_up w"
    "db_profiles w' = db_profiles w" "db_active w' = db_active w"
    "request_count w' = request_count w"
    "\<lbrakk>k \<noteq> user_profile_key a \<or> fst (DatabaseManager_get_user_profile w a) = None;
      k \<noteq> user_profile_key b \<or> fst (DatabaseManager_get_user_profile w b) = None;
      k \<noteq> compat_key a b\<rbrakk> \<Longrightarrow> redis_data w' k = redis_data w k"
proof -
  have "redis_up w' = redis_up w \<and> now w' = now w \<and> db_up w' = db_up w \<and>
    db_profiles w' = db_profiles w \<and> db_active w' = db_active w \<and>
    request_count w' = request_count w \<and>
    ((k \<noteq> user_profile_key a \<or> fst (DatabaseManager_get_user_profile w a) = None) \<and>
     (k \<noteq> user_profile_key b \<or> fst (DatabaseManager_get_user_profile w b) = None) \<and>
      k \<noteq> compat_key a b \<longrightarrow> redis_data w' k = redis_data w k)"
  proof (cases "CacheManager_get_compatibility_score w a b")
    case (Some c)
    from predict_hit [OF Some, of rt cfg m] assms show ?thesis by auto
  next
    case None
    obtain r1 w1 where 1: "get_user_profile cfg w a = (r1, w1)" by (cases "get_user_profile cfg w a")
    obtain r2 w2 where 2: "get_user_profile cfg w1 b = (r2, w2)" by (cases "get_user_profile cfg w1 b")
    note f1 = get_user_profile_frame [OF 1] and f2 = get_user_profile_frame [OF 2]
    have env: "redis_up w2 = redis_up w \<and> now w2 = now w \<and> db_up w2 = db_up w \<and>
      db_profiles w2 = db_profiles w \<and> db_active w2 = db_active w \<and>
      request_count w2 = request_count w"
      using f1(1-5,7) f2(1-5,7) by simp
    have key: "redis_data w2 k = redis_data w k"
      if "k \<noteq> user_profile_key a \<or> fst (DatabaseManager_get_user_profile w a) = None"
        and "k \<noteq> user_profile_key b \<or> fst (DatabaseManager_get_user_profile w b) = None"
    proof -
      have "k \<noteq> user_profile_key b \<or> fst (DatabaseManager_get_user_profile w1 b) = None"
        using that(2) by (simp add: get_user_profile_keeps_store [OF 1])
      from get_user_profile_keeps_key [OF 2 this] get_user_profile_keeps_key [OF 1 that(1)]
      show ?thesis by simp
    qed
    consider (nf) "r1 = None \<or> r2 = None"
      | (ok) p1 p2 s where "r1 = Some p1" "r2 = Some p2"
          "HybridRecommender_predict_compatibility m
             (filter (\<lambda>(k, v). k \<noteq> ''user_id'') p1) (filter (\<lambda>(k, v). k \<noteq> ''user_id'') p2) = Inr s"
      | (exn) p1 p2 e where "r1 = Some p1" "r2 = Some p2"
          "HybridRecommender_predict_compatibility m
             (filter (\<lambda>(k, v). k \<noteq> ''user_id'') p1) (filter (\<lambda>(k, v). k \<noteq> ''user_id'') p2) = Inl e"
    proof (cases "r1 = None \<or> r2 = None")
      case True then show ?thesis by (rule nf)
    next
      case False
      then obtain p1 p2 where r: "r1 = Some p1" "r2 = Some p2" by auto
      show ?thesis
        by (cases "HybridRecommender_predict_compatibility m
             (filter (\<lambda>(k, v). k \<noteq> ''user_id'') p1) (filter (\<lambda>(k, v). k \<noteq> ''user_id'') p2)")
          (use r ok exn in blast)+
    qed
    then show ?thesis
    proof cases
      case nf
      from predict_not_found [OF None 1 2 nf, of rt m] assms have "w' = w2" by simp
      with env key show ?thesis by simp
    next
      case ok
      from predict_computed [OF None 1 [unfolded ok(1)] 2 [unfolded ok(2)] ok(3), where rt = rt] assms
      have "w' = CacheManager_set_compatibility_score rt cfg (w2\<lparr>model_calls := Suc (model_calls w2)\<rparr>) a b v"
        by simp
      with env key show ?thesis by (simp add: set_cached_score_eq)
    next
      case exn
      from predict_raised [OF None 1 [unfolded exn(1)] 2 [unfolded exn(2)] exn(3), where rt = rt] assms
      have "w' = w2\<lparr>model_calls := Suc (model_calls w2)\<rparr>" by simp
      with env key show ?thesis by simp
    qed
  qed
  then show "redis_up w' = redis_up w" "now w' = now w" "db_up w' = db_up w"
    "db_profiles w' = db_profiles w" "db_active w' = db_active w"
    "request_count w' = request_count w"
    "\<lbrakk>k \<noteq> user_profile_key a \<or> fst (DatabaseManager_get_user_profile w a) = None;
      k \<noteq> user_profile_key b \<or> fst (DatabaseManager_get_user_profile w b) = None;
      k \<noteq> compat_key a b\<rbrakk> \<Longrightarrow> redis_data w' k = redis_data w k"
    by simp_all
qed

lemma gather_frame:
  assumes "gather_predict rt cfg m w u cands = (ss, w')"
  shows "redis_up w' = redis_up w \<and> now w' = now w \<and> db_up w' = db_up w \<and>
    db_profiles w' = db_profiles w \<and> db_active w' = db_active w \<and>
    request_count w' = request_count w \<and>
    redis_data w' (matches_key x) = redis_data w (matches_key x)"
  using assms
proof (induction cands arbitrary: w ss w')
  case Nil
  then show ?case by simp
next
  case (Cons c cands)
  obtain s w1 where 1: "predict_compatibility rt cfg m w u c = (s, w1)"
    by (cases "predict_compatibility rt cfg m w u c")
  obtain ss' w2 where 2: "gather_predict rt cfg m w1 u cands = (ss', w2)"
    by (cases "gather_predict rt cfg m w1 u cands")
  from Cons.prems have w': "w' = w2" by (simp add: 1 2)
  have "redis_data w1 (matches_key x) = redis_data w (matches_key x)"
    by (rule predict_frame(7) [OF 1]) simp_all
  with Cons.IH [OF 2] predict_frame(1-6) [OF 1] show ?case by (simp add: w')
qed

lemma active_users_cong:
  assumes "db_up w' = db_up w" "db_active w' = db_active w"
  shows "DatabaseManager_get_active_users w' n = DatabaseManager_get_active_users w n"
  using assms by (simp add: DatabaseManager_get_active_users_def)

lemma generated_ranking_not_cached:
  assumes "\<not> truthy (CacheManager_get_precomputed_matches w u)" and "\<not> truthy candidate_ids"
    and "fst (get_user_profile cfg w u) = Some p"
    and "filter (\<lambda>cid. cid \<noteq> u) (DatabaseManager_get_active_users w (max_candidates cfg)) \<noteq> []"
  shows "redis_data (snd (get_recommendations rt cfg m w u candidate_ids top_k)) (matches_key u)
           = redis_data w (matches_key u)"
    and "length (fst (get_recommendations rt cfg m w u candidate_ids top_k)) =
           length (py_slice_to (filter (\<lambda>cid. cid \<noteq> u)
              (DatabaseManager_get_active_users w (max_candidates cfg))) top_k)"
proof -
  obtain w1 where 1: "get_user_profile cfg w u = (Some p, w1)"
    using assms(3) by (cases "get_user_profile cfg w u") simp
  define cands where "cands = filter (\<lambda>cid. cid \<noteq> u)
      (DatabaseManager_get_active_users w1 (max_candidates cfg))"
  have c: "cands = filter (\<lambda>cid. cid \<noteq> u) (DatabaseManager_get_active_users w (max_candidates cfg))"
    unfolding cands_def
    by (simp add: active_users_cong [OF get_user_profile_frame(3) [OF 1] get_user_profile_frame(5) [OF 1]])
  then have ne: "cands \<noteq> []" using assms(4) by simp
  obtain scores w2 where 2: "gather_predict rt cfg m w1 u cands = (scores, w2)"
    by (cases "gather_predict rt cfg m w1 u cands")
  from get_recommendations_generated [OF assms(1,2) 1 cands_def 2, of top_k] ne
  have r: "get_recommendations rt cfg m w u candidate_ids top_k =
     (py_slice_to (sort_by_score_desc (make_recommendations (now w2) cands scores)) top_k,
      w2\<lparr>request_count := Suc (request_count w2)\<rparr>)"
    by simp
  have "redis_data w2 (matches_key u) = redis_data w1 (matches_key u)"
    using gather_frame [OF 2] by simp
  also have "\<dots> = redis_data w (matches_key u)"
    by (rule get_user_profile_frame(8) [OF 1]) simp
  finally show "redis_data (snd (get_recommendations rt cfg m w u candidate_ids top_k)) (matches_key u)
           = redis_data w (matches_key u)"
    by (simp add: r)
  have len: "length scores = length cands" using gather_length [of rt cfg m w1 u cands] by (simp add: 2)
  have "length (sort_by_score_desc (make_recommendations (now w2) cands scores)) = length cands"
    by (simp add: sort_by_score_desc_length make_recommendations_length [OF len])
  then have "length (py_slice_to (sort_by_score_desc (make_recommendations (now w2) cands scores)) top_k)
      = length (py_slice_to cands top_k)"
    by (simp add: py_slice_to_def)
  then show "length (fst (get_recommendations rt cfg m w u candidate_ids top_k)) =
           length (py_slice_to (filter (\<lambda>cid. cid \<noteq> u)
              (DatabaseManager_get_active_users w (max_candidates cfg))) top_k)"
    by (simp add: r c)
qed

lemma demo_world_roster:
  "filter (\<lambda>cid. cid \<noteq> ''u'')
     (DatabaseManager_get_active_users demo_world (max_candidates default_config))
   = [''a'', ''b'', ''c'']"
  by (simp add: DatabaseManager_get_active_users_def demo_world_def default_config_def)

subsection \<open>A candidate whose profile cannot be resolved\<close>

lemma compat_key_same_user:
  assumes "CHR '':'' \<notin> set u" "CHR '':'' \<notin> set x" "compat_key u x = compat_key u c"
  shows "x = c"
proof -
  from compat_key_inject [OF assms] have "{u, x} = {u, c}" .
  then show ?thesis by (auto simp: doubleton_eq_iff)
qed

lemma predict_keeps_unresolvable:
  assumes cache: "\<not> truthy (CacheManager_get_user_profile w x)"
    and store: "fst (DatabaseManager_get_user_profile w x) = None"
    and miss: "CacheManager_get_compatibility_score w u x = None"
    and colon: "CHR '':'' \<notin> set u" "CHR '':'' \<notin> set x"
    and step: "predict_compatibility rt cfg m w u c = (v, w')"
  shows "\<not> truthy (CacheManager_get_user_profile w' x)"
    and "fst (DatabaseManager_get_user_profile w' x) = None"
    and "CacheManager_get_compatibility_score w' u x = None"
    and "c = x \<Longrightarrow> v = 0.5"
proof -
  note f = predict_frame [OF step]
  have "redis_data w' (user_profile_key x) = redis_data w (user_profile_key x)"
  proof (rule f(7))
    show "user_profile_key x \<noteq> user_profile_key u \<or> fst (DatabaseManager_get_user_profile w u) = None"
      using store by (cases "x = u") simp_all
    show "user_profile_key x \<noteq> user_profile_key c \<or> fst (DatabaseManager_get_user_profile w c) = None"
      using store by (cases "x = c") simp_all
    show "user_profile_key x \<noteq> compat_key u c" by simp
  qed
  from cached_profile_cong [OF f(1) f(2) this] cache
  show "\<not> truthy (CacheManager_get_user_profile w' x)" by simp
  from db_get_cong [of w' w x] f(3,4) store
  show "fst (DatabaseManager_get_user_profile w' x) = None" by simp
  have nf: "fst (get_user_profile cfg w x) = None"
    using cache store by (simp add: get_user_profile_fst_eq)
  have "redis_data w' (compat_key u x) = redis_data w (compat_key u x)"
  proof (cases "c = x")
    case True
    have "fst (get_user_profile cfg w u) = None \<or> fst (get_user_profile cfg w x) = None"
      using nf by simp
    from predict_no_compat_write(2) [OF miss this, of rt m u x] step True
    show ?thesis by simp
  next
    case False
    show ?thesis
    proof (rule f(7))
      show "compat_key u x \<noteq> user_profile_key u \<or> fst (DatabaseManager_get_user_profile w u) = None"
        by simp
      show "compat_key u x \<noteq> user_profile_key c \<or> fst (DatabaseManager_get_user_profile w c) = None"
        by simp
      show "compat_key u x \<noteq> compat_key u c"
        using compat_key_same_user [OF colon, of c] False by blast
    qed
  qed
  from cached_score_cong [OF f(1) f(2) this] miss
  show "CacheManager_get_compatibility_score w' u x = None" by simp
  show "v = 0.5" if "c = x"
  proof -
    have "fst (get_user_profile cfg w u) = None \<or> fst (get_user_profile cfg w x) = None"
      using nf by simp
    from predict_no_compat_write(1) [OF miss this, of rt m] step that show ?thesis by simp
  qed
qed

lemma gather_unresolvable_scores:
  assumes "\<not> truthy (CacheManager_get_user_profile w x)"
    and "fst (DatabaseManager_get_user_profile w x) = None"
    and "CacheManager_get_compatibility_score w u x = None"
    and "CHR '':'' \<notin> set u" "CHR '':'' \<notin> set x"
  shows "\<forall>(c, s) \<in> set (zip cands (fst (gather_predict rt cfg m w u cands))). c = x \<longrightarrow> s = 0.5"
  using assms(1-3)
proof (induction cands arbitrary: w)
  case Nil
  show ?case by simp
next
  case (Cons c cands)
  obtain s w1 where 1: "predict_compatibility rt cfg m w u c = (s, w1)"
    by (cases "predict_compatibility rt cfg m w u c")
  obtain ss w2 where 2: "gather_predict rt cfg m w1 u cands = (ss, w2)"
    by (cases "gather_predict rt cfg m w1 u cands")
  note k = predict_keeps_unresolvable [OF Cons.prems assms(4,5) 1]
  from Cons.IH [OF k(1-3)] 2
  have "\<forall>(c, s) \<in> set (zip cands ss). c = x \<longrightarrow> s = 0.5" by simp
  with k(4) show ?case by (auto simp: 1 2)
qed

lemma make_recommendations_set:
  "set (make_recommendations t cands scores)
     = (\<lambda>(c, s). \<lparr>rec_user_id = c, compatibility_score = s, timestamp = t\<rparr>) ` set (zip cands scores)"
  by (simp add: make_recommendations_def)


subsection \<open>The feature encoder\<close>

lemma np_array_append:
  "np_array (xs @ ys) =
     (case np_array xs of Inl e \<Rightarrow> Inl e
      | Inr a \<Rightarrow> (case np_array ys of Inl e \<Rightarrow> Inl e | Inr b \<Rightarrow> Inr (a @ b)))"
  by (induction xs) (simp_all split: sum.splits)

lemma np_array_entries:
  "np_array vs = Inr xs \<Longrightarrow> length xs = length vs \<and> (\<forall>i < length vs. vs ! i = PyFloat (xs ! i))"
proof (induction vs arbitrary: xs)
  case Nil
  then show ?case by simp
next
  case (Cons v vs)
  from Cons.prems obtain r rs where v: "np_float32 v = Inr r" and rs: "np_array vs = Inr rs"
    and xs: "xs = r # rs"
    by (auto split: sum.splits)
  from v have vr: "v = PyFloat r" by (cases v) simp_all
  from Cons.IH [OF rs] have "length rs = length vs" "\<forall>i < length vs. vs ! i = PyFloat (rs ! i)"
    by simp_all
  then show ?case using vr xs by (auto simp: nth_Cons split: nat.splits)
qed

lemma np_array_floats:
  "(\<forall>v \<in> set vs. \<exists>r. v = PyFloat r) \<Longrightarrow> \<exists>xs. np_array vs = Inr xs"
  by (induction vs) auto

lemma encode_user_features_eq:
  "encode_user_features user_data
     = np_array (map (\<lambda>key. dict_get user_data key (PyFloat 0.5)) schema_keys)"
proof -
  let ?g = "\<lambda>key. dict_get user_data key (PyFloat 0.5)"
  have s: "schema_keys =
      [''motivation_score'', ''strictness_level'', ''journey_stage'', ''social_comfort''] @
      [''animal_rights_score'', ''environmental_score'', ''health_motivation'',
       ''spiritual_connection'', ''activism_level''] @
      [''cooking_skill_level'', ''sustainability_practices'', ''community_involvement''] @
      [''swipe_selectivity'', ''message_quality_score'', ''response_time_pattern'',
       ''engagement_depth'', ''profile_completion'', ''activity_frequency'']"
    by (simp add: schema_keys_def)
  have 1: "encode_dietary_journey user_data = np_array (map ?g
      [''motivation_score'', ''strictness_level'', ''journey_stage'', ''social_comfort''])"
    by (simp add: encode_dietary_journey_def)
  have 2: "encode_values_alignment user_data = np_array (map ?g
      [''animal_rights_score'', ''environmental_score'', ''health_motivation'',
       ''spiritual_connection'', ''activism_level''])"
    by (simp add: encode_values_alignment_def)
  have 3: "encode_lifestyle_compatibility user_data = np_array (map ?g
      [''cooking_skill_level'', ''sustainability_practices'', ''community_involvement''])"
    by (simp add: encode_lifestyle_compatibility_def)
  have 4: "encode_behavioral_features user_data = np_array (map ?g
      [''swipe_selectivity'', ''message_quality_score'', ''response_time_pattern'',
       ''engagement_depth'', ''profile_completion'', ''activity_frequency''])"
    by (simp add: encode_behavioral_features_def)
  show ?thesis
    unfolding encode_user_features_def 1 2 3 4 s map_append np_array_append
    by (simp split: sum.splits)
qed

lemma schema_keys_length: "length schema_keys = 18"
  by (simp add: schema_keys_def)

lemma dict_get_float:
  assumes "\<forall>s. map_of d key \<noteq> Some (PyStr s)"
  shows "\<exists>r. dict_get d key (PyFloat 0.5) = PyFloat r"
proof (cases "map_of d key")
  case None
  then have "dict_get d key (PyFloat 0.5) = PyFloat 0.5" by (simp add: dict_get_def)
  then show ?thesis by (rule exI)
next
  case (Some v)
  with assms obtain r where "v = PyFloat r" by (cases v) auto
  with Some have "dict_get d key (PyFloat 0.5) = PyFloat r" by (simp add: dict_get_def)
  then show ?thesis by (rule exI)
qed

lemma encode_total:
  assumes "\<forall>key \<in> set schema_keys. \<forall>s. map_of d key \<noteq> Some (PyStr s)"
  shows "\<exists>xs. encode_user_features d = Inr xs"
  unfolding encode_user_features_eq
  by (rule np_array_floats) (use assms dict_get_float in auto)

lemma encode_entries:
  assumes "encode_user_features d = Inr xs"
  shows "length xs = 18"
    and "i < 18 \<Longrightarrow> dict_get d (schema_keys ! i) (PyFloat 0.5) = PyFloat (xs ! i)"
proof -
  from assms have "np_array (map (\<lambda>key. dict_get d key (PyFloat 0.5)) schema_keys) = Inr xs"
    by (simp only: encode_user_features_eq)
  from np_array_entries [OF this]
  have l: "length xs = 18"
    and e: "\<forall>i < 18. map (\<lambda>key. dict_get d key (PyFloat 0.5)) schema_keys ! i = PyFloat (xs ! i)"
    by (simp_all add: schema_keys_length)
  show "length xs = 18" by (rule l)
  show "dict_get d (schema_keys ! i) (PyFloat 0.5) = PyFloat (xs ! i)" if "i < 18"
    using e that by (simp add: schema_keys_length)
qed

lemma resolver_returns_record:
  assumes "fst (get_user_profile cfg w u) = Some p"
  shows "CacheManager_get_user_profile w u = Some p \<or> (db_up w \<and> db_profiles w u = Some p)"
proof (cases "truthy (CacheManager_get_user_profile w u)")
  case True
  with assms show ?thesis by (simp add: get_user_profile_fst_eq)
next
  case False
  with assms have "fst (DatabaseManager_get_user_profile w u) = Some p"
    by (simp add: get_user_profile_fst_eq)
  then have "db_up w \<and> db_profiles w u = Some p"
    by (auto simp: db_get_eq split: if_splits option.splits list.splits)
  then show ?thesis by simp
qed

subsection \<open>Profile resolver\<close>

text \<open>
  C7. On a cache miss the resolver reads the store exactly once. If the store returns a
  profile and the cache accepts the write (the server answers and the expiry time is
  positive), the profile is stored under the user's key with the profile expiry time,
  and a second resolve less than that time later returns the same profile without
  reading the store. If the store returns nothing, the result is \<open>None\<close>, the cache is
  left as it was, and the next resolve reads the store again.
\<close>

theorem resolve_read_through:
  "\<not> truthy (CacheManager_get_user_profile w u) \<Longrightarrow>
   db_reads (snd (get_user_profile cfg w u)) = Suc (db_reads w) \<and>
   (\<forall>p. fst (DatabaseManager_get_user_profile w u) = Some p \<and> redis_up w \<and> 0 < cache_ttl cfg \<longrightarrow>
        fst (get_user_profile cfg w u) = Some p \<and>
        redis_data (snd (get_user_profile cfg w u)) (user_profile_key u)
          = Some (RProfile p, now w + profile_ttl cfg) \<and>
        (\<forall>d. 0 \<le> d \<and> d < profile_ttl cfg \<longrightarrow>
           fst (get_user_profile cfg (advance d (snd (get_user_profile cfg w u))) u) = Some p \<and>
           db_reads (snd (get_user_profile cfg (advance d (snd (get_user_profile cfg w u))) u))
             = Suc (db_reads w))) \<and>
   (fst (DatabaseManager_get_user_profile w u) = None \<longrightarrow>
        fst (get_user_profile cfg w u) = None \<and>
        redis_data (snd (get_user_profile cfg w u)) = redis_data w \<and>
        db_reads (snd (get_user_profile cfg (snd (get_user_profile cfg w u)) u))
          = Suc (Suc (db_reads w)))"
proof (intro conjI allI impI)
  assume cold: "\<not> truthy (CacheManager_get_user_profile w u)"
  show "db_reads (snd (get_user_profile cfg w u)) = Suc (db_reads w)"
    using cold
    by (simp add: get_user_profile_miss set_cached_profile_eq split: option.splits)
next
  fix p
  assume cold: "\<not> truthy (CacheManager_get_user_profile w u)"
    and h: "fst (DatabaseManager_get_user_profile w u) = Some p \<and> redis_up w \<and> 0 < cache_ttl cfg"
  show "fst (get_user_profile cfg w u) = Some p"
    using cold h by (simp add: resolve_found)
  show "redis_data (snd (get_user_profile cfg w u)) (user_profile_key u)
          = Some (RProfile p, now w + profile_ttl cfg)"
    using cold h by (simp add: resolve_found)
next
  fix p d
  assume cold: "\<not> truthy (CacheManager_get_user_profile w u)"
    and h: "fst (DatabaseManager_get_user_profile w u) = Some p \<and> redis_up w \<and> 0 < cache_ttl cfg"
    and d: "0 \<le> d \<and> d < profile_ttl cfg"
  define w1 where "w1 = snd (get_user_profile cfg w u)"
  have w1: "w1 = w\<lparr>db_reads := Suc (db_reads w),
               redis_data := (redis_data w)(user_profile_key u \<mapsto> (RProfile p, now w + profile_ttl cfg))\<rparr>"
    using cold h by (simp add: w1_def resolve_found)
  have ne: "p \<noteq> []" using h by (auto dest: db_get_nonempty)
  have "get_user_profile cfg (advance d w1) u
      = (Some p, (advance d w1)\<lparr>cache_hits := Suc (cache_hits (advance d w1))\<rparr>)"
  proof (rule resolve_cached_within_ttl)
    show "redis_up (advance d w1)" using h by (simp add: w1)
    show "redis_data (advance d w1) (user_profile_key u) = Some (RProfile p, now w + profile_ttl cfg)"
      by (simp add: w1)
    show "now (advance d w1) < now w + profile_ttl cfg" using d by (simp add: w1)
    show "p \<noteq> []" by (rule ne)
  qed
  then have "fst (get_user_profile cfg (advance d w1) u) = Some p \<and>
      db_reads (snd (get_user_profile cfg (advance d w1) u)) = Suc (db_reads w)"
    by (simp add: w1)
  then show "fst (get_user_profile cfg (advance d (snd (get_user_profile cfg w u))) u) = Some p"
    and "db_reads (snd (get_user_profile cfg (advance d (snd (get_user_profile cfg w u))) u))
             = Suc (db_reads w)"
    by (simp_all add: w1_def)
next
  assume cold: "\<not> truthy (CacheManager_get_user_profile w u)"
    and db: "fst (DatabaseManager_get_user_profile w u) = None"
  have 1: "get_user_profile cfg w u = (None, w\<lparr>db_reads := Suc (db_reads w)\<rparr>)"
    using cold db by (rule resolve_not_found)
  show "fst (get_user_profile cfg w u) = None" by (simp add: 1)
  show "redis_data (snd (get_user_profile cfg w u)) = redis_data w" by (simp add: 1)
  have cold': "\<not> truthy (CacheManager_get_user_profile (w\<lparr>db_reads := Suc (db_reads w)\<rparr>) u)"
    using cold by simp
  have db': "fst (DatabaseManager_get_user_profile (w\<lparr>db_reads := Suc (db_reads w)\<rparr>) u) = None"
    using db by simp
  show "db_reads (snd (get_user_profile cfg (snd (get_user_profile cfg w u)) u))
          = Suc (Suc (db_reads w))"
    by (simp add: 1 resolve_not_found [OF cold' db'])
qed

theorem resolve_read_through_witness:
  "\<not> truthy (CacheManager_get_user_profile demo_world ''a'') \<and>
   fst (DatabaseManager_get_user_profile demo_world ''a'') = Some (uniform_profile ''a'' 0) \<and>
   redis_up demo_world \<and> 0 < cache_ttl default_config \<and>
   (0::int) \<le> 60 \<and> 60 < profile_ttl default_config \<and>
   db_reads (snd (get_user_profile default_config demo_world ''a'')) = Suc (db_reads demo_world) \<and>
   fst (get_user_profile default_config
          (advance 60 (snd (get_user_profile default_config demo_world ''a''))) ''a'')
     = Some (uniform_profile ''a'' 0) \<and>
   db_reads (snd (get_user_profile default_config
          (advance 60 (snd (get_user_profile default_config demo_world ''a''))) ''a''))
     = Suc (db_reads demo_world) \<and>
   \<not> truthy (CacheManager_get_user_profile demo_world ''x'') \<and>
   fst (DatabaseManager_get_user_profile demo_world ''x'') = None \<and>
   fst (get_user_profile default_config demo_world ''x'') = None \<and>
   db_reads (snd (get_user_profile default_config
          (snd (get_user_profile default_config demo_world ''x'')) ''x''))
     = Suc (Suc (db_reads demo_world))"
proof -
  have cold_a: "\<not> truthy (CacheManager_get_user_profile demo_world ''a'')"
    and cold_x: "\<not> truthy (CacheManager_get_user_profile demo_world ''x'')"
    by (simp_all add: demo_world_cold)
  have db_a: "fst (DatabaseManager_get_user_profile demo_world ''a'') = Some (uniform_profile ''a'' 0)"
    and db_x: "fst (DatabaseManager_get_user_profile demo_world ''x'') = None"
    by (simp_all add: demo_world_store)
  have up: "redis_up demo_world" by (simp add: demo_world_def)
  have ttl: "0 < cache_ttl default_config" by (simp add: default_config_def)
  have d: "(0::int) \<le> 60 \<and> 60 < profile_ttl default_config"
    by (simp add: default_config_def profile_ttl_def)
  note ta = resolve_read_through [OF cold_a, of default_config]
  note tx = resolve_read_through [OF cold_x, of default_config]
  from ta have reads: "db_reads (snd (get_user_profile default_config demo_world ''a''))
      = Suc (db_reads demo_world)"
    by (rule conjunct1)
  note found = ta [THEN conjunct2, THEN conjunct1, rule_format, OF conjI [OF db_a conjI [OF up ttl]]]
  note again = found [THEN conjunct2, THEN conjunct2, rule_format, OF d]
  note nf = tx [THEN conjunct2, THEN conjunct2, rule_format, OF db_x]
  from cold_a db_a up ttl d reads again cold_x db_x nf show ?thesis by simp
qed

subsection \<open>Pairwise scorer\<close>

text \<open>
  C5. The pairwise scorer always returns a number (every exception of the cache, the
  store and the model is caught inside it). When the score is not in the cache and one
  of the two profiles is not found, the result is 0.5, no compatibility entry is
  written and the model is not called; when the model raises, the result is 0.5;
  every value returned on a cache miss lies in \<open>[0, 1]\<close>; on a hit the cached value
  is returned.
\<close>

theorem pairwise_score_total_neutral_bounded:
  "(\<exists>v w'. predict_compatibility rt cfg m w a b = (v, w')) \<and>
   (CacheManager_get_compatibility_score w a b = None \<and>
      (fst (get_user_profile cfg w a) = None \<or> fst (get_user_profile cfg w b) = None) \<longrightarrow>
        fst (predict_compatibility rt cfg m w a b) = 0.5 \<and>
        (\<forall>x y. redis_data (snd (predict_compatibility rt cfg m w a b)) (compat_key x y)
                 = redis_data w (compat_key x y)) \<and>
        model_calls (snd (predict_compatibility rt cfg m w a b)) = model_calls w) \<and>
   (\<forall>p1 p2 e. CacheManager_get_compatibility_score w a b = None \<and>
        fst (get_user_profile cfg w a) = Some p1 \<and> fst (get_user_profile cfg w b) = Some p2 \<and>
        HybridRecommender_predict_compatibility m
           (filter (\<lambda>(k, v). k \<noteq> ''user_id'') p1) (filter (\<lambda>(k, v). k \<noteq> ''user_id'') p2) = Inl e \<longrightarrow>
        fst (predict_compatibility rt cfg m w a b) = 0.5) \<and>
   (CacheManager_get_compatibility_score w a b = None \<longrightarrow>
        0 \<le> fst (predict_compatibility rt cfg m w a b) \<and> fst (predict_compatibility rt cfg m w a b) \<le> 1) \<and>
   (\<forall>v. CacheManager_get_compatibility_score w a b = Some v \<longrightarrow>
        fst (predict_compatibility rt cfg m w a b) = v)"
proof (intro conjI allI impI)
  show "\<exists>v w'. predict_compatibility rt cfg m w a b = (v, w')"
    by (cases "predict_compatibility rt cfg m w a b") blast
next
  assume h: "CacheManager_get_compatibility_score w a b = None \<and>
      (fst (get_user_profile cfg w a) = None \<or> fst (get_user_profile cfg w b) = None)"
  then have miss: "CacheManager_get_compatibility_score w a b = None"
    and nf: "fst (get_user_profile cfg w a) = None \<or> fst (get_user_profile cfg w b) = None"
    by simp_all
  show "fst (predict_compatibility rt cfg m w a b) = 0.5"
    by (rule predict_no_compat_write(1) [OF miss nf])
  show "model_calls (snd (predict_compatibility rt cfg m w a b)) = model_calls w"
    by (rule predict_no_compat_write(3) [OF miss nf])
  fix x y
  show "redis_data (snd (predict_compatibility rt cfg m w a b)) (compat_key x y)
                 = redis_data w (compat_key x y)"
    by (rule predict_no_compat_write(2) [OF miss nf])
next
  fix p1 p2 e
  assume h: "CacheManager_get_compatibility_score w a b = None \<and>
        fst (get_user_profile cfg w a) = Some p1 \<and> fst (get_user_profile cfg w b) = Some p2 \<and>
        HybridRecommender_predict_compatibility m
           (filter (\<lambda>(k, v). k \<noteq> ''user_id'') p1) (filter (\<lambda>(k, v). k \<noteq> ''user_id'') p2) = Inl e"
  obtain r1 w1 where 1: "get_user_profile cfg w a = (r1, w1)" by (cases "get_user_profile cfg w a")
  obtain r2 w2 where 2: "get_user_profile cfg w1 b = (r2, w2)" by (cases "get_user_profile cfg w1 b")
  have r1: "r1 = Some p1" using h 1 by simp
  have r2: "r2 = Some p2" using resolve_twice [of cfg w a b] h by (simp add: 1 2)
  from h have miss: "CacheManager_get_compatibility_score w a b = None"
    and raised: "HybridRecommender_predict_compatibility m
           (filter (\<lambda>(k, v). k \<noteq> ''user_id'') p1) (filter (\<lambda>(k, v). k \<noteq> ''user_id'') p2) = Inl e"
    by simp_all
  from predict_raised [OF miss 1 [unfolded r1] 2 [unfolded r2] raised]
  show "fst (predict_compatibility rt cfg m w a b) = 0.5" by simp
next
  assume miss: "CacheManager_get_compatibility_score w a b = None"
  from predict_miss_bounded [OF miss]
  show "0 \<le> fst (predict_compatibility rt cfg m w a b)"
    and "fst (predict_compatibility rt cfg m w a b) \<le> 1"
    by simp_all
next
  fix v assume "CacheManager_get_compatibility_score w a b = Some v"
  from predict_hit [OF this] show "fst (predict_compatibility rt cfg m w a b) = v" by simp
qed

theorem pairwise_score_total_neutral_bounded_witness:
  "(CacheManager_get_compatibility_score demo_world ''a'' ''x'' = None \<and>
      (fst (get_user_profile default_config demo_world ''a'') = None \<or>
       fst (get_user_profile default_config demo_world ''x'') = None)) \<and>
   fst (predict_compatibility python_float_roundtrip default_config first_feature_model demo_world ''a'' ''x'') = 0.5 \<and>
   model_calls (snd (predict_compatibility python_float_roundtrip default_config first_feature_model demo_world ''a'' ''x''))
     = model_calls demo_world \<and>
   0 \<le> fst (predict_compatibility python_float_roundtrip default_config first_feature_model demo_world ''a'' ''x'') \<and>
   fst (predict_compatibility python_float_roundtrip default_config first_feature_model demo_world ''a'' ''x'') \<le> 1 \<and>
   HybridRecommender_predict_compatibility untrained_model
      (filter (\<lambda>(k, v). k \<noteq> ''user_id'') (uniform_profile ''a'' 0))
      (filter (\<lambda>(k, v). k \<noteq> ''user_id'') (uniform_profile ''b'' 0.5)) = Inl ValueError \<and>
   fst (predict_compatibility python_float_roundtrip default_config untrained_model demo_world ''a'' ''b'') = 0.5 \<and>
   CacheManager_get_compatibility_score scored_world ''u'' ''c'' = Some 0.7 \<and>
   fst (predict_compatibility python_float_roundtrip default_config untrained_model scored_world ''u'' ''c'') = 0.7"
proof -
  have miss: "CacheManager_get_compatibility_score demo_world ''a'' ''x'' = None"
    by (simp add: demo_world_cold)
  have nf: "fst (get_user_profile default_config demo_world ''a'') = None \<or>
       fst (get_user_profile default_config demo_world ''x'') = None"
    by (simp add: demo_world_resolves)
  note t = pairwise_score_total_neutral_bounded
    [of python_float_roundtrip default_config first_feature_model demo_world "''a''" "''x''"]
  note neutral = t [THEN conjunct2, THEN conjunct1, THEN mp, OF conjI [OF miss nf]]
  note bounded = t [THEN conjunct2, THEN conjunct2, THEN conjunct2, THEN conjunct1, THEN mp, OF miss]
  have miss2: "CacheManager_get_compatibility_score demo_world ''a'' ''b'' = None"
    by (simp add: demo_world_cold)
  have pa: "fst (get_user_profile default_config demo_world ''a'') = Some (uniform_profile ''a'' 0)"
    and pb: "fst (get_user_profile default_config demo_world ''b'') = Some (uniform_profile ''b'' 0.5)"
    by (simp_all add: demo_world_resolves)
  have raised: "HybridRecommender_predict_compatibility untrained_model
      (filter (\<lambda>(k, v). k \<noteq> ''user_id'') (uniform_profile ''a'' 0))
      (filter (\<lambda>(k, v). k \<noteq> ''user_id'') (uniform_profile ''b'' 0.5)) = Inl ValueError"
    by (simp only: strip_uniform_profile untrained_raises)
  note u = pairwise_score_total_neutral_bounded
    [of python_float_roundtrip default_config untrained_model demo_world "''a''" "''b''"]
  note caught = u [THEN conjunct2, THEN conjunct2, THEN conjunct1, THEN spec, THEN spec, THEN spec,
      THEN mp, OF conjI [OF miss2 conjI [OF pa conjI [OF pb raised]]]]
  have hit: "CacheManager_get_compatibility_score scored_world ''u'' ''c'' = Some 0.7"
    by (simp only: scored_world_scores)
  note h = pairwise_score_total_neutral_bounded
    [of python_float_roundtrip default_config untrained_model scored_world "''u''" "''c''"]
  note cached = h [THEN conjunct2, THEN conjunct2, THEN conjunct2, THEN conjunct2, THEN spec,
      THEN mp, OF hit]
  from miss nf neutral [THEN conjunct1] neutral [THEN conjunct2, THEN conjunct2]
    bounded [THEN conjunct1] bounded [THEN conjunct2] raised caught hit cached
  show ?thesis by (intro conjI)
qed

text \<open>
  C6. When the score of a pair is not in the cache, both profiles resolve, the model
  returns a value \<open>v\<close> and the cache accepts the write, the first call returns \<open>v\<close>
  and stores its text; a second call less than the compatibility expiry time later
  does not call the model (it has been called exactly once over the two calls) and
  returns the number read back from that text, \<open>rt v\<close>. The two results are the same
  number exactly when the round trip of the text is exact at \<open>v\<close>: for a Python
  float it is, for the NumPy \<^verbatim>\<open>float32\<close> score that the model returns it is not in
  general.
\<close>

theorem pairwise_score_second_call_reads_cached_text:
  assumes "CacheManager_get_compatibility_score w a b = None"
    and "redis_up w" and "0 < cache_ttl cfg"
    and "fst (get_user_profile cfg w a) = Some p1"
    and "fst (get_user_profile cfg w b) = Some p2"
    and "HybridRecommender_predict_compatibility m
           (filter (\<lambda>(k, v). k \<noteq> ''user_id'') p1) (filter (\<lambda>(k, v). k \<noteq> ''user_id'') p2) = Inr v"
    and "0 \<le> d" and "d < compat_ttl cfg"
  shows "fst (predict_compatibility rt cfg m w a b) = v \<and>
         model_calls (snd (predict_compatibility rt cfg m w a b)) = Suc (model_calls w) \<and>
         fst (predict_compatibility rt cfg m (advance d (snd (predict_compatibility rt cfg m w a b))) a b)
           = rt v \<and>
         model_calls (snd (predict_compatibility rt cfg m
            (advance d (snd (predict_compatibility rt cfg m w a b))) a b)) = Suc (model_calls w) \<and>
         (fst (predict_compatibility rt cfg m (advance d (snd (predict_compatibility rt cfg m w a b))) a b)
            = fst (predict_compatibility rt cfg m w a b) \<longleftrightarrow> rt v = v)"
proof -
  define w1 where "w1 = snd (predict_compatibility rt cfg m w a b)"
  note pw = predict_writes [OF assms(1-6), of rt, folded w1_def]
  have "now w1 + d < now w + compat_ttl cfg" using pw(3) assms(8) by simp
  from predict_cached_within_ttl [OF pw(2) pw(4) this refl]
  have 2: "predict_compatibility rt cfg m (advance d w1) a b
      = (rt v, (advance d w1)\<lparr>cache_hits := Suc (cache_hits w1)\<rparr>)" .
  show ?thesis
    unfolding w1_def [symmetric] using pw(1) pw(5) by (simp add: 2)
qed

theorem pairwise_score_second_call_reads_cached_text_witness:
  "\<forall>rt.
   fst (predict_compatibility rt default_config first_feature_model demo_world ''a'' ''b'') = 0.3 \<and>
   model_calls (snd (predict_compatibility rt default_config first_feature_model demo_world ''a'' ''b'')) = 1 \<and>
   fst (predict_compatibility rt default_config first_feature_model
          (advance 7199 (snd (predict_compatibility rt default_config first_feature_model demo_world ''a'' ''b'')))
          ''a'' ''b'') = rt 0.3 \<and>
   model_calls (snd (predict_compatibility rt default_config first_feature_model
          (advance 7199 (snd (predict_compatibility rt default_config first_feature_model demo_world ''a'' ''b'')))
          ''a'' ''b'')) = 1"
proof
  fix rt :: text_roundtrip
  have 1: "CacheManager_get_compatibility_score demo_world ''a'' ''b'' = None"
    by (simp add: demo_world_cold)
  have 2: "redis_up demo_world" by (simp add: demo_world_def)
  have 3: "0 < cache_ttl default_config" by (simp add: default_config_def)
  have 4: "fst (get_user_profile default_config demo_world ''a'') = Some (uniform_profile ''a'' 0)"
    and 5: "fst (get_user_profile default_config demo_world ''b'') = Some (uniform_profile ''b'' 0.5)"
    by (simp_all add: demo_world_resolves)
  have 6: "HybridRecommender_predict_compatibility first_feature_model
           (filter (\<lambda>(k, v). k \<noteq> ''user_id'') (uniform_profile ''a'' 0))
           (filter (\<lambda>(k, v). k \<noteq> ''user_id'') (uniform_profile ''b'' 0.5)) = Inr 0.3"
    by (simp only: strip_uniform_profile first_feature_zero_half)
  have 7: "(0::int) \<le> 7199" by simp
  have 8: "7199 < compat_ttl default_config" by (simp add: compat_ttl_def default_config_def)
  have mc: "Suc (model_calls demo_world) = 1" by (simp add: demo_world_def)
  note t = pairwise_score_second_call_reads_cached_text [OF 1 2 3 4 5 6 7 8, of rt]
  note a = t [THEN conjunct1]
    and b = t [THEN conjunct2, THEN conjunct1, unfolded mc]
    and c = t [THEN conjunct2, THEN conjunct2, THEN conjunct1]
    and e = t [THEN conjunct2, THEN conjunct2, THEN conjunct2, THEN conjunct1, unfolded mc]
  from a b c e
  show "fst (predict_compatibility rt default_config first_feature_model demo_world ''a'' ''b'') = 0.3 \<and>
   model_calls (snd (predict_compatibility rt default_config first_feature_model demo_world ''a'' ''b'')) = 1 \<and>
   fst (predict_compatibility rt default_config first_feature_model
          (advance 7199 (snd (predict_compatibility rt default_config first_feature_model demo_world ''a'' ''b'')))
          ''a'' ''b'') = rt 0.3 \<and>
   model_calls (snd (predict_compatibility rt default_config first_feature_model
          (advance 7199 (snd (predict_compatibility rt default_config first_feature_model demo_world ''a'' ''b'')))
          ''a'' ''b'')) = 1"
    by (intro conjI)
qed

text \<open>
  C3 (as the code has it). Whenever the score of a pair is in the cache, the scorer
  returns that value for both orders of the arguments without calling the model; in
  particular, after a call for \<open>(a, b)\<close> has computed a score \<open>v\<close> and stored its text,
  a call for \<open>(b, a)\<close> less than the compatibility expiry time later does not call
  the model and returns the number read back from that text, \<open>rt v\<close>. On a cache miss
  the two orders call the model on swapped inputs, and nothing makes the two results
  equal.
\<close>

theorem pairwise_score_symmetric_when_cached:
  "(\<forall>v. CacheManager_get_compatibility_score w a b = Some v \<longrightarrow>
        predict_compatibility rt cfg m w a b = (v, w\<lparr>cache_hits := Suc (cache_hits w)\<rparr>) \<and>
        predict_compatibility rt cfg m w b a = (v, w\<lparr>cache_hits := Suc (cache_hits w)\<rparr>)) \<and>
   (\<forall>p1 p2 v d. CacheManager_get_compatibility_score w a b = None \<and> redis_up w \<and> 0 < cache_ttl cfg \<and>
        fst (get_user_profile cfg w a) = Some p1 \<and> fst (get_user_profile cfg w b) = Some p2 \<and>
        HybridRecommender_predict_compatibility m
           (filter (\<lambda>(k, v). k \<noteq> ''user_id'') p1) (filter (\<lambda>(k, v). k \<noteq> ''user_id'') p2) = Inr v \<and>
        0 \<le> d \<and> d < compat_ttl cfg \<longrightarrow>
        fst (predict_compatibility rt cfg m w a b) = v \<and>
        fst (predict_compatibility rt cfg m (advance d (snd (predict_compatibility rt cfg m w a b))) b a) = rt v \<and>
        model_calls (snd (predict_compatibility rt cfg m
            (advance d (snd (predict_compatibility rt cfg m w a b))) b a)) = Suc (model_calls w))"
proof (intro conjI allI impI)
  fix v assume h: "CacheManager_get_compatibility_score w a b = Some v"
  then show "predict_compatibility rt cfg m w a b = (v, w\<lparr>cache_hits := Suc (cache_hits w)\<rparr>)"
    by (rule predict_hit)
  from h have "CacheManager_get_compatibility_score w b a = Some v"
    by (simp add: CacheManager_get_compatibility_score_def compat_key_commute [of b a])
  then show "predict_compatibility rt cfg m w b a = (v, w\<lparr>cache_hits := Suc (cache_hits w)\<rparr>)"
    by (rule predict_hit)
next
  fix p1 p2 v d
  assume h: "CacheManager_get_compatibility_score w a b = None \<and> redis_up w \<and> 0 < cache_ttl cfg \<and>
        fst (get_user_profile cfg w a) = Some p1 \<and> fst (get_user_profile cfg w b) = Some p2 \<and>
        HybridRecommender_predict_compatibility m
           (filter (\<lambda>(k, v). k \<noteq> ''user_id'') p1) (filter (\<lambda>(k, v). k \<noteq> ''user_id'') p2) = Inr v \<and>
        0 \<le> d \<and> d < compat_ttl cfg"
  define w1 where "w1 = snd (predict_compatibility rt cfg m w a b)"
  from h have a: "CacheManager_get_compatibility_score w a b = None" "redis_up w" "0 < cache_ttl cfg"
    "fst (get_user_profile cfg w a) = Some p1" "fst (get_user_profile cfg w b) = Some p2"
    "HybridRecommender_predict_compatibility m
           (filter (\<lambda>(k, v). k \<noteq> ''user_id'') p1) (filter (\<lambda>(k, v). k \<noteq> ''user_id'') p2) = Inr v"
    and d: "d < compat_ttl cfg"
    by simp_all
  note pw = predict_writes [OF a, of rt, folded w1_def]
  have "now w1 + d < now w + compat_ttl cfg" using pw(3) d by simp
  from predict_cached_within_ttl [OF pw(2) pw(4) this compat_key_commute]
  have 2: "predict_compatibility rt cfg m (advance d w1) b a
      = (rt v, (advance d w1)\<lparr>cache_hits := Suc (cache_hits w1)\<rparr>)" .
  show "fst (predict_compatibility rt cfg m w a b) = v" using pw(1) by (simp add: w1_def)
  show "fst (predict_compatibility rt cfg m (advance d (snd (predict_compatibility rt cfg m w a b))) b a) = rt v"
    unfolding w1_def [symmetric] by (simp add: 2)
  show "model_calls (snd (predict_compatibility rt cfg m
            (advance d (snd (predict_compatibility rt cfg m w a b))) b a)) = Suc (model_calls w)"
    unfolding w1_def [symmetric] using pw(5) by (simp add: 2)
qed

theorem pairwise_score_symmetric_when_cached_witness:
  "CacheManager_get_compatibility_score scored_world ''u'' ''a'' = Some 0.9 \<and>
   fst (predict_compatibility python_float_roundtrip default_config first_feature_model scored_world ''u'' ''a'') = 0.9 \<and>
   fst (predict_compatibility python_float_roundtrip default_config first_feature_model scored_world ''a'' ''u'') = 0.9 \<and>
   fst (predict_compatibility python_float_roundtrip default_config first_feature_model demo_world ''a'' ''b'') = 0.3 \<and>
   fst (predict_compatibility python_float_roundtrip default_config first_feature_model
          (advance 7199 (snd (predict_compatibility python_float_roundtrip default_config first_feature_model demo_world ''a'' ''b'')))
          ''b'' ''a'') = 0.3"
proof -
  have s: "CacheManager_get_compatibility_score scored_world ''u'' ''a'' = Some 0.9"
    by (simp add: scored_world_scores)
  note t1 = pairwise_score_symmetric_when_cached
    [of scored_world "''u''" "''a''" python_float_roundtrip default_config first_feature_model,
      THEN conjunct1, rule_format, OF s]
  have 1: "CacheManager_get_compatibility_score demo_world ''a'' ''b'' = None"
    by (simp add: demo_world_cold)
  have 2: "redis_up demo_world" by (simp add: demo_world_def)
  have 3: "0 < cache_ttl default_config" by (simp add: default_config_def)
  have 4: "fst (get_user_profile default_config demo_world ''a'') = Some (uniform_profile ''a'' 0)"
    and 5: "fst (get_user_profile default_config demo_world ''b'') = Some (uniform_profile ''b'' 0.5)"
    by (simp_all add: demo_world_resolves)
  have 6: "HybridRecommender_predict_compatibility first_feature_model
           (filter (\<lambda>(k, v). k \<noteq> ''user_id'') (uniform_profile ''a'' 0))
           (filter (\<lambda>(k, v). k \<noteq> ''user_id'') (uniform_profile ''b'' 0.5)) = Inr 0.3"
    by (simp only: strip_uniform_profile first_feature_zero_half)
  have 7: "(0::int) \<le> 7199" by simp
  have 8: "7199 < compat_ttl default_config" by (simp add: compat_ttl_def default_config_def)
  note h = conjI [OF 1 conjI [OF 2 conjI [OF 3 conjI [OF 4 conjI [OF 5 conjI [OF 6 conjI [OF 7 8]]]]]]]
  note t2 = pairwise_score_symmetric_when_cached
    [of demo_world "''a''" "''b''" python_float_roundtrip default_config first_feature_model,
      THEN conjunct2, rule_format, OF h]
  from s t1 t2 show ?thesis by (simp add: python_float_roundtrip_def)
qed

theorem pairwise_score_asymmetric_counterexample:
  "fst (predict_compatibility python_float_roundtrip default_config first_feature_model demo_world ''a'' ''b'') \<noteq>
   fst (predict_compatibility python_float_roundtrip default_config first_feature_model demo_world ''b'' ''a'')"
proof -
  have 1: "CacheManager_get_compatibility_score demo_world ''a'' ''b'' = None"
    and miss2: "CacheManager_get_compatibility_score demo_world ''b'' ''a'' = None"
    by (simp_all add: demo_world_cold)
  have 2: "redis_up demo_world" by (simp add: demo_world_def)
  have 3: "0 < cache_ttl default_config" by (simp add: default_config_def)
  have 4: "fst (get_user_profile default_config demo_world ''a'') = Some (uniform_profile ''a'' 0)"
    and 5: "fst (get_user_profile default_config demo_world ''b'') = Some (uniform_profile ''b'' 0.5)"
    by (simp_all add: demo_world_resolves)
  have 6: "HybridRecommender_predict_compatibility first_feature_model
           (filter (\<lambda>(k, v). k \<noteq> ''user_id'') (uniform_profile ''a'' 0))
           (filter (\<lambda>(k, v). k \<noteq> ''user_id'') (uniform_profile ''b'' 0.5)) = Inr 0.3"
    by (simp only: strip_uniform_profile first_feature_zero_half)
  have sc2: "HybridRecommender_predict_compatibility first_feature_model
           (filter (\<lambda>(k, v). k \<noteq> ''user_id'') (uniform_profile ''b'' 0.5))
           (filter (\<lambda>(k, v). k \<noteq> ''user_id'') (uniform_profile ''a'' 0)) = Inr 0.5"
    by (simp only: strip_uniform_profile first_feature_half_zero)
  have "fst (predict_compatibility python_float_roundtrip default_config first_feature_model demo_world ''a'' ''b'') = 0.3"
    by (rule predict_writes(1) [OF 1 2 3 4 5 6])
  moreover have "fst (predict_compatibility python_float_roundtrip default_config first_feature_model demo_world ''b'' ''a'') = 0.5"
    by (rule predict_writes(1) [OF miss2 2 3 5 4 sc2])
  ultimately show ?thesis by simp
qed

subsection \<open>Candidate ranker\<close>

text \<open>
  C2 (as the code has it). The list is sorted by score descending and is a
  rearrangement of the scored candidates; candidates with equal scores keep the order
  in which they were supplied (the sort is stable and has no tie-break on the
  identifier); the result of a request with supplied candidates is that list cut to
  \<open>top_k\<close>, the scores being taken in the order of the candidates.
\<close>

theorem ranking_score_descending_stable:
  "score_descending (sort_by_score_desc rs) \<and>
   mset (sort_by_score_desc rs) = mset rs \<and>
   (\<forall>k. filter (\<lambda>r. compatibility_score r = k) (sort_by_score_desc rs)
          = filter (\<lambda>r. compatibility_score r = k) rs) \<and>
   (\<forall>cands p w1 scores w2.
      cands \<noteq> [] \<and> get_user_profile cfg w u = (Some p, w1) \<and>
      gather_predict rt cfg m w1 u cands = (scores, w2) \<longrightarrow>
        fst (get_recommendations rt cfg m w u (Some cands) top_k)
          = py_slice_to (sort_by_score_desc (make_recommendations (now w2) cands scores)) top_k \<and>
        score_descending (fst (get_recommendations rt cfg m w u (Some cands) top_k)))"
proof (intro conjI allI impI)
  show "score_descending (sort_by_score_desc rs)" by (rule sort_by_score_desc_descending)
  show "mset (sort_by_score_desc rs) = mset rs" by (rule sort_by_score_desc_mset)
  show "filter (\<lambda>r. compatibility_score r = k) (sort_by_score_desc rs)
          = filter (\<lambda>r. compatibility_score r = k) rs" for k
    by (rule sort_by_score_desc_stable)
next
  fix cands p w1 scores w2
  assume h: "cands \<noteq> [] \<and> get_user_profile cfg w u = (Some p, w1) \<and>
      gather_predict rt cfg m w1 u cands = (scores, w2)"
  then have h1: "cands \<noteq> []" and h2: "get_user_profile cfg w u = (Some p, w1)"
    and h3: "gather_predict rt cfg m w1 u cands = (scores, w2)"
    by simp_all
  have e: "get_recommendations rt cfg m w u (Some cands) top_k =
     (py_slice_to (sort_by_score_desc (make_recommendations (now w2) cands scores)) top_k,
      w2\<lparr>request_count := Suc (request_count w2)\<rparr>)"
    by (rule get_recommendations_supplied [OF h1 h2 h3])
  show "fst (get_recommendations rt cfg m w u (Some cands) top_k)
          = py_slice_to (sort_by_score_desc (make_recommendations (now w2) cands scores)) top_k"
    by (simp add: e)
  show "score_descending (fst (get_recommendations rt cfg m w u (Some cands) top_k))"
    by (simp add: e score_descending_slice sort_by_score_desc_descending)
qed

theorem ranking_score_descending_stable_witness:
  "[''a'', ''b'', ''c''] \<noteq> [] \<and>
   get_user_profile default_config scored_world ''u''
     = (Some (uniform_profile ''u'' 0.5), snd (get_user_profile default_config scored_world ''u'')) \<and>
   score_descending (fst (get_recommendations python_float_roundtrip default_config first_feature_model scored_world ''u''
      (Some [''a'', ''b'', ''c'']) 10))"
proof -
  have h1: "[''a'', ''b'', ''c''] \<noteq> []" by simp
  have h2: "get_user_profile default_config scored_world ''u''
     = (Some (uniform_profile ''u'' 0.5), snd (get_user_profile default_config scored_world ''u''))"
    using scored_world_store(3) [of default_config]
    by (cases "get_user_profile default_config scored_world ''u''") simp
  have h3: "gather_predict python_float_roundtrip default_config first_feature_model
      (snd (get_user_profile default_config scored_world ''u'')) ''u'' [''a'', ''b'', ''c'']
    = (fst (gather_predict python_float_roundtrip default_config first_feature_model
      (snd (get_user_profile default_config scored_world ''u'')) ''u'' [''a'', ''b'', ''c'']),
       snd (gather_predict python_float_roundtrip default_config first_feature_model
      (snd (get_user_profile default_config scored_world ''u'')) ''u'' [''a'', ''b'', ''c'']))"
    by (rule prod.collapse [symmetric])
  note t = ranking_score_descending_stable
    [of _ default_config scored_world "''u''" python_float_roundtrip first_feature_model 10,
      THEN conjunct2, THEN conjunct2, THEN conjunct2, rule_format,
      OF conjI [OF h1 conjI [OF h2 h3]], THEN conjunct2]
  from h1 h2 t show ?thesis by (intro conjI)
qed

theorem ranking_tie_order_counterexample:
  "map rec_user_id (fst (get_recommendations python_float_roundtrip default_config first_feature_model scored_world ''u''
      (Some [''b'', ''a'', ''c'']) 10)) = [''b'', ''a'', ''c''] \<and>
   map compatibility_score (fst (get_recommendations python_float_roundtrip default_config first_feature_model scored_world ''u''
      (Some [''b'', ''a'', ''c'']) 10)) = [0.9, 0.9, 0.7] \<and>
   \<not> spec_ranked (fst (get_recommendations python_float_roundtrip default_config first_feature_model scored_world ''u''
      (Some [''b'', ''a'', ''c'']) 10))"
proof -
  have "set [''b'', ''a'', ''c''] \<subseteq> {''a'', ''b'', ''c''}" "[''b'', ''a'', ''c''] \<noteq> []"
    by simp_all
  from scored_world_ranking [OF this, of python_float_roundtrip default_config first_feature_model 10]
  obtain t where "fst (get_recommendations python_float_roundtrip default_config first_feature_model scored_world ''u''
      (Some [''b'', ''a'', ''c'']) 10) =
     py_slice_to (sort_by_score_desc (make_recommendations t [''b'', ''a'', ''c'']
        (map (\<lambda>c. if c = ''c'' then 0.7 else 0.9) [''b'', ''a'', ''c'']))) 10"
    by blast
  then have e: "fst (get_recommendations python_float_roundtrip default_config first_feature_model scored_world ''u''
      (Some [''b'', ''a'', ''c'']) 10) =
      [\<lparr>rec_user_id = ''b'', compatibility_score = 0.9, timestamp = t\<rparr>,
       \<lparr>rec_user_id = ''a'', compatibility_score = 0.9, timestamp = t\<rparr>,
       \<lparr>rec_user_id = ''c'', compatibility_score = 0.7, timestamp = t\<rparr>]"
    by (simp add: py_slice_to_def sort_by_score_desc_def make_recommendations_def)
  show ?thesis
    unfolding e by (simp add: spec_ranked_def)
qed

subsection \<open>Precomputation\<close>

text \<open>
  C1. The background precomputation for user \<open>u\<close>, on an empty cache and with the active
  users \<open>a\<close>, \<open>b\<close>, \<open>c\<close> as generated candidates, ranks the three candidates and leaves
  no ranked-list entry for \<open>u\<close> in the cache: the test before the cache write reads
  the generated list, which is not empty.
\<close>

theorem warm_writes_no_ranked_list:
  "length (fst (get_recommendations python_float_roundtrip default_config untrained_model demo_world ''u'' None 50)) = 3 \<and>
   redis_data (precompute_user_matches python_float_roundtrip default_config untrained_model demo_world ''u'')
     (matches_key ''u'') = None \<and>
   CacheManager_get_precomputed_matches
     (precompute_user_matches python_float_roundtrip default_config untrained_model demo_world ''u'') ''u'' = None"
proof -
  have 1: "\<not> truthy (CacheManager_get_precomputed_matches demo_world ''u'')"
    by (simp add: demo_world_cold)
  have 2: "\<not> truthy (None :: string list option)" by simp
  have 3: "fst (get_user_profile default_config demo_world ''u'') = Some (uniform_profile ''u'' 0.5)"
    by (simp add: demo_world_resolves)
  have 4: "filter (\<lambda>cid. cid \<noteq> ''u'')
     (DatabaseManager_get_active_users demo_world (max_candidates default_config)) \<noteq> []"
    by (simp only: demo_world_roster) simp
  note g = generated_ranking_not_cached [OF 1 2 3 4, of python_float_roundtrip untrained_model 50]
  have a: "redis_data (precompute_user_matches python_float_roundtrip default_config untrained_model demo_world ''u'')
     (matches_key ''u'') = None"
    using g(1) by (simp add: precompute_user_matches_def demo_world_def)
  have b: "length (fst (get_recommendations python_float_roundtrip default_config untrained_model demo_world ''u'' None 50)) = 3"
    using g(2) by (simp only: demo_world_roster) (simp add: py_slice_to_def)
  have c: "CacheManager_get_precomputed_matches
     (precompute_user_matches python_float_roundtrip default_config untrained_model demo_world ''u'') ''u'' = None"
    by (simp add: get_cached_matches_eq a)
  from a b c show ?thesis by simp
qed

subsection \<open>Partial failure\<close>

text \<open>
  C8. With \<open>top_k\<close> not negative, a requesting user whose profile resolves, and a
  supplied candidate \<open>x\<close> whose profile is neither in the cache nor in the store (and
  whose score with the user is not in the cache), the result has
  \<open>min N top_k\<close> entries and is the head of a ranking that holds every supplied
  candidate, is sorted by score descending and gives \<open>x\<close> the score 0.5. Identifiers
  are taken without the key delimiter, so that no other candidate shares the key of
  \<open>x\<close>.
\<close>

theorem partial_failure_isolated:
  assumes "0 \<le> top_k" and "x \<in> set cands"
    and "fst (get_user_profile cfg w u) = Some p"
    and "\<not> truthy (CacheManager_get_user_profile w x)"
    and "fst (DatabaseManager_get_user_profile w x) = None"
    and "CacheManager_get_compatibility_score w u x = None"
    and "CHR '':'' \<notin> set u" and "CHR '':'' \<notin> set x"
  shows "length (fst (get_recommendations rt cfg m w u (Some cands) top_k))
           = min (length cands) (nat top_k) \<and>
         (\<exists>ranking. fst (get_recommendations rt cfg m w u (Some cands) top_k) = take (nat top_k) ranking \<and>
            mset (map rec_user_id ranking) = mset cands \<and>
            score_descending ranking \<and>
            (\<forall>r \<in> set ranking. rec_user_id r = x \<longrightarrow> compatibility_score r = 0.5))"
proof -
  have ne: "cands \<noteq> []" using assms(2) by auto
  obtain w1 where 1: "get_user_profile cfg w u = (Some p, w1)"
    using assms(3) by (cases "get_user_profile cfg w u") simp
  have "fst (get_user_profile cfg w x) = None"
    using assms(4,5) by (simp add: get_user_profile_fst_eq)
  with assms(3) have xu: "x \<noteq> u" by auto
  note f = get_user_profile_frame [OF 1]
  have "redis_data w1 (user_profile_key x) = redis_data w (user_profile_key x)"
    by (rule f(8)) (use xu in simp)
  from cached_profile_cong [OF f(1) f(2) this] assms(4)
  have c1: "\<not> truthy (CacheManager_get_user_profile w1 x)" by simp
  have s1: "fst (DatabaseManager_get_user_profile w1 x) = None"
    using get_user_profile_keeps_store [OF 1, of x] assms(5) by simp
  have m1: "CacheManager_get_compatibility_score w1 u x = None"
    using resolve_keeps_scores [OF 1, of u x] assms(6) by simp
  obtain scores w2 where 2: "gather_predict rt cfg m w1 u cands = (scores, w2)"
    by (cases "gather_predict rt cfg m w1 u cands")
  define ranking where "ranking = sort_by_score_desc (make_recommendations (now w2) cands scores)"
  have len: "length scores = length cands" using gather_length [of rt cfg m w1 u cands] by (simp add: 2)
  have r: "fst (get_recommendations rt cfg m w u (Some cands) top_k) = take (nat top_k) ranking"
    using get_recommendations_supplied [OF ne 1 2, of top_k] assms(1)
    by (simp add: ranking_def py_slice_to_def)
  have lr: "length ranking = length cands"
    by (simp add: ranking_def sort_by_score_desc_length make_recommendations_length [OF len])
  have ids: "mset (map rec_user_id ranking) = mset cands"
  proof -
    have "mset (map rec_user_id ranking)
        = image_mset rec_user_id (mset (make_recommendations (now w2) cands scores))"
      by (simp add: ranking_def sort_by_score_desc_mset)
    also have "\<dots> = mset (map rec_user_id (make_recommendations (now w2) cands scores))" by simp
    also have "\<dots> = mset cands" by (simp only: make_recommendations_ids [OF len])
    finally show ?thesis .
  qed
  have desc: "score_descending ranking"
    by (simp add: ranking_def sort_by_score_desc_descending)
  have "mset ranking = mset (make_recommendations (now w2) cands scores)"
    by (simp add: ranking_def sort_by_score_desc_mset)
  then have "set ranking = set (make_recommendations (now w2) cands scores)"
    by (rule mset_eq_setD)
  moreover have "\<forall>(c, s) \<in> set (zip cands scores). c = x \<longrightarrow> s = 0.5"
    using gather_unresolvable_scores [OF c1 s1 m1 assms(7,8), of cands rt cfg m] by (simp add: 2)
  ultimately have half: "\<forall>r \<in> set ranking. rec_user_id r = x \<longrightarrow> compatibility_score r = 0.5"
    by (auto simp: make_recommendations_set)
  have "length (take (nat top_k) ranking) = min (length cands) (nat top_k)"
    using lr by (simp add: min_def)
  with r have l: "length (fst (get_recommendations rt cfg m w u (Some cands) top_k))
           = min (length cands) (nat top_k)" by simp
  from r ids desc half
  have "fst (get_recommendations rt cfg m w u (Some cands) top_k) = take (nat top_k) ranking \<and>
            mset (map rec_user_id ranking) = mset cands \<and>
            score_descending ranking \<and>
            (\<forall>r \<in> set ranking. rec_user_id r = x \<longrightarrow> compatibility_score r = 0.5)"
    by (intro conjI)
  then have "\<exists>ranking. fst (get_recommendations rt cfg m w u (Some cands) top_k) = take (nat top_k) ranking \<and>
            mset (map rec_user_id ranking) = mset cands \<and>
            score_descending ranking \<and>
            (\<forall>r \<in> set ranking. rec_user_id r = x \<longrightarrow> compatibility_score r = 0.5)"
    by (rule exI)
  with l show ?thesis by (rule conjI)
qed

theorem partial_failure_isolated_witness:
  "(0::int) \<le> 10 \<and> ''x'' \<in> set [''a'', ''x'', ''b''] \<and>
   length (fst (get_recommendations python_float_roundtrip default_config first_feature_model demo_world ''u''
     (Some [''a'', ''x'', ''b'']) 10)) = min (length [''a'', ''x'', ''b'']) (nat 10) \<and>
   (\<exists>ranking. fst (get_recommendations python_float_roundtrip default_config first_feature_model demo_world ''u''
        (Some [''a'', ''x'', ''b'']) 10) = take (nat 10) ranking \<and>
      mset (map rec_user_id ranking) = mset [''a'', ''x'', ''b''] \<and>
      score_descending ranking \<and>
      (\<forall>r \<in> set ranking. rec_user_id r = ''x'' \<longrightarrow> compatibility_score r = 0.5))"
proof -
  have 1: "(0::int) \<le> 10" by simp
  have 2: "''x'' \<in> set [''a'', ''x'', ''b'']" by simp
  have 3: "fst (get_user_profile default_config demo_world ''u'') = Some (uniform_profile ''u'' 0.5)"
    by (simp add: demo_world_resolves)
  have 4: "\<not> truthy (CacheManager_get_user_profile demo_world ''x'')"
    by (simp add: demo_world_cold)
  have 5: "fst (DatabaseManager_get_user_profile demo_world ''x'') = None"
    by (simp add: demo_world_store)
  have 6: "CacheManager_get_compatibility_score demo_world ''u'' ''x'' = None"
    by (simp add: demo_world_cold)
  have 7: "CHR '':'' \<notin> set ''u''" and 8: "CHR '':'' \<notin> set ''x''" by simp_all
  note t = partial_failure_isolated [OF 1 2 3 4 5 6 7 8, of python_float_roundtrip first_feature_model]
  from 1 2 t [THEN conjunct1] t [THEN conjunct2] show ?thesis by (intro conjI)
qed

subsection \<open>Profiles reaching the scoring function\<close>

text \<open>
  C9 (as the code has it). The resolver returns the cached or stored record as it is:
  it fills in nothing and checks no range. The feature encoder, at the start of the
  scoring function, turns any record whose attributes are floats into a vector of the
  eighteen attributes, in which an attribute absent from the record is 0.5 and an
  attribute present is the stored value; so the encoded values lie in \<open>[0, 1]\<close>
  whenever the stored ones do.
\<close>

theorem encoder_defaults_missing_attributes:
  "(fst (get_user_profile cfg w u) = Some p \<longrightarrow>
       CacheManager_get_user_profile w u = Some p \<or> (db_up w \<and> db_profiles w u = Some p)) \<and>
   ((\<forall>key \<in> set schema_keys. \<forall>s. map_of d key \<noteq> Some (PyStr s)) \<longrightarrow>
       (\<exists>xs. encode_user_features d = Inr xs)) \<and>
   (\<forall>xs. encode_user_features d = Inr xs \<longrightarrow>
       length xs = 18 \<and>
       (\<forall>i < 18. (map_of d (schema_keys ! i) = None \<longrightarrow> xs ! i = 0.5) \<and>
                 (\<forall>r. map_of d (schema_keys ! i) = Some (PyFloat r) \<longrightarrow> xs ! i = r)) \<and>
       ((\<forall>key \<in> set schema_keys. \<forall>r. map_of d key = Some (PyFloat r) \<longrightarrow> 0 \<le> r \<and> r \<le> 1) \<longrightarrow>
          (\<forall>x \<in> set xs. 0 \<le> x \<and> x \<le> 1)))"
proof (intro conjI allI impI)
  assume "fst (get_user_profile cfg w u) = Some p"
  then show "CacheManager_get_user_profile w u = Some p \<or> (db_up w \<and> db_profiles w u = Some p)"
    by (rule resolver_returns_record)
next
  assume "\<forall>key \<in> set schema_keys. \<forall>s. map_of d key \<noteq> Some (PyStr s)"
  then show "\<exists>xs. encode_user_features d = Inr xs" by (rule encode_total)
next
  fix xs assume e: "encode_user_features d = Inr xs"
  show "length xs = 18" by (rule encode_entries(1) [OF e])
next
  fix xs i assume e: "encode_user_features d = Inr xs" and i: "i < 18"
    and n: "map_of d (schema_keys ! i) = None"
  from encode_entries(2) [OF e i] n show "xs ! i = 0.5" by (simp add: dict_get_def)
next
  fix xs i r assume e: "encode_user_features d = Inr xs" and i: "i < 18"
    and s: "map_of d (schema_keys ! i) = Some (PyFloat r)"
  from encode_entries(2) [OF e i] s show "xs ! i = r" by (simp add: dict_get_def)
next
  fix xs
  assume e: "encode_user_features d = Inr xs"
    and range: "\<forall>key \<in> set schema_keys. \<forall>r. map_of d key = Some (PyFloat r) \<longrightarrow> 0 \<le> r \<and> r \<le> 1"
  show "\<forall>x \<in> set xs. 0 \<le> x \<and> x \<le> 1"
  proof
    fix x assume x: "x \<in> set xs"
    from x encode_entries(1) [OF e] obtain i where i: "i < 18" and xi: "x = xs ! i"
      by (auto simp: in_set_conv_nth)
    have key: "schema_keys ! i \<in> set schema_keys" using i by (simp add: schema_keys_length)
    note g = encode_entries(2) [OF e i]
    show "0 \<le> x \<and> x \<le> 1"
    proof (cases "map_of d (schema_keys ! i)")
      case None
      with g xi show ?thesis by (simp add: dict_get_def)
    next
      case (Some v)
      with g have "v = PyFloat x" by (simp add: dict_get_def xi)
      with Some range key show ?thesis by blast
    qed
  qed
qed

theorem encoder_defaults_missing_attributes_witness:
  "fst (get_user_profile default_config demo_world ''a'') = Some (uniform_profile ''a'' 0) \<and>
   (CacheManager_get_user_profile demo_world ''a'' = Some (uniform_profile ''a'' 0) \<or>
      (db_up demo_world \<and> db_profiles demo_world ''a'' = Some (uniform_profile ''a'' 0))) \<and>
   (\<exists>xs. encode_user_features [(''motivation_score'', PyFloat 0.25)] = Inr xs \<and>
      length xs = 18 \<and> xs ! 0 = 0.25 \<and> xs ! 1 = 0.5 \<and> (\<forall>x \<in> set xs. 0 \<le> x \<and> x \<le> 1))"
proof -
  let ?d = "[(''motivation_score'', PyFloat 0.25)]"
  note t = encoder_defaults_missing_attributes
    [of default_config demo_world "''a''" "uniform_profile ''a'' 0" ?d]
  have r: "fst (get_user_profile default_config demo_world ''a'') = Some (uniform_profile ''a'' 0)"
    by (simp add: demo_world_resolves)
  note a = t [THEN conjunct1, rule_format, OF r]
  have fl: "\<forall>key \<in> set schema_keys. \<forall>s. map_of ?d key \<noteq> Some (PyStr s)"
    by (simp add: schema_keys_def)
  from t [THEN conjunct2, THEN conjunct1, THEN mp, OF fl]
  obtain xs where e: "encode_user_features ?d = Inr xs" by (rule exE)
  note c = t [THEN conjunct2, THEN conjunct2, THEN spec, THEN mp, OF e]
  have k0: "map_of ?d (schema_keys ! 0) = Some (PyFloat 0.25)"
    and k1: "map_of ?d (schema_keys ! 1) = None"
    by (simp_all add: schema_keys_def)
  have rg: "\<forall>key \<in> set schema_keys. \<forall>r. map_of ?d key = Some (PyFloat r) \<longrightarrow> 0 \<le> r \<and> r \<le> 1"
    by (simp add: schema_keys_def)
  have l: "length xs = 18" by (rule c [THEN conjunct1])
  note entries = c [THEN conjunct2, THEN conjunct1]
  have i0: "(0::nat) < 18" and i1: "(1::nat) < 18" by simp_all
  have x0: "xs ! 0 = 0.25"
    by (rule entries [THEN spec, THEN mp, OF i0, THEN conjunct2, THEN spec, THEN mp, OF k0])
  have x1: "xs ! 1 = 0.5"
    by (rule entries [THEN spec, THEN mp, OF i1, THEN conjunct1, THEN mp, OF k1])
  have b: "\<forall>x \<in> set xs. 0 \<le> x \<and> x \<le> 1"
    by (rule c [THEN conjunct2, THEN conjunct2, THEN mp, OF rg])
  from e l x0 x1 b have "encode_user_features ?d = Inr xs \<and>
      length xs = 18 \<and> xs ! 0 = 0.25 \<and> xs ! 1 = 0.5 \<and> (\<forall>x \<in> set xs. 0 \<le> x \<and> x \<le> 1)"
    by (intro conjI)
  then have "\<exists>xs. encode_user_features ?d = Inr xs \<and>
      length xs = 18 \<and> xs ! 0 = 0.25 \<and> xs ! 1 = 0.5 \<and> (\<forall>x \<in> set xs. 0 \<le> x \<and> x \<le> 1)"
    by (rule exI)
  with r a show ?thesis by (intro conjI)
qed

theorem resolver_passes_out_of_range_counterexample:
  "fst (get_user_profile default_config outlier_world ''v'') = Some (uniform_profile ''v'' 1.5) \<and>
   encode_user_features (filter (\<lambda>(k, v). k \<noteq> ''user_id'') (uniform_profile ''v'' 1.5))
     = Inr (replicate 18 1.5) \<and>
   \<not> ((1.5::real) \<le> 1)"
proof -
  have c: "CacheManager_get_user_profile outlier_world ''v'' = None"
    by (simp add: get_cached_profile_eq outlier_world_def demo_world_def)
  have "uniform_profile ''v'' 1.5 \<noteq> []" by (rule uniform_profile_nonempty)
  then have s: "fst (DatabaseManager_get_user_profile outlier_world ''v'') = Some (uniform_profile ''v'' 1.5)"
    by (simp add: db_get_eq outlier_world_def demo_world_def neq_Nil_conv split: list.splits)
  have 1: "fst (get_user_profile default_config outlier_world ''v'') = Some (uniform_profile ''v'' 1.5)"
    by (simp add: get_user_profile_fst_eq c s)
  have 2: "encode_user_features (filter (\<lambda>(k, v). k \<noteq> ''user_id'') (uniform_profile ''v'' 1.5))
     = Inr (replicate 18 1.5)"
    by (simp only: strip_uniform_profile encode_uniform_profile)
  have 3: "\<not> ((1.5::real) \<le> 1)" by simp
  from 1 2 3 show ?thesis by (intro conjI)
qed

end
